theory Spec2Isabelle
  imports Complex_Main "HOL-Library.Sublist"
begin

section \<open>JavaScript values\<close>

text \<open>
  The hook \<^verbatim>\<open>useSSEChat\<close> (src/frontend/src/hooks/useSSEChat.js) works on values
  produced by \<^verbatim>\<open>JSON.parse\<close>. A JSON value is one of the six shapes below; the
  JavaScript value \<^verbatim>\<open>undefined\<close>, which \<^verbatim>\<open>JSON.parse\<close> never produces but which a
  property read yields for a missing key, is \<open>None\<close> of \<open>jsval\<close>.

  Strings are sequences of code units; the model keeps the code units below 256, so that
  \<^verbatim>\<open>charCodeAt\<close> is \<open>of_char\<close>. An object is the list of its own properties;
  \<^verbatim>\<open>JSON.parse\<close> leaves every key at most once, and a read takes the binding of the key.
  A number is kept as a rational: the code only ever asks whether a number is zero.
\<close>

datatype json =
    JNull
  | JBool bool
  | JNum rat
  | JStr string
  | JArr "json list"
  | JObj "(string \<times> json) list"

type_synonym jsval = "json option"

text \<open>
  An exception is kept by its \<^verbatim>\<open>name\<close> and its \<^verbatim>\<open>message\<close>. The message of a
  TypeError that the engine raises is the engine's own wording; the strings used below
  follow V8, shortened.
\<close>

datatype js_error =
    TypeError string
  | AbortError string
  | Error string

fun err_name :: "js_error \<Rightarrow> string" where
  "err_name (TypeError m) = ''TypeError''"
| "err_name (AbortError m) = ''AbortError''"
| "err_name (Error m) = ''Error''"

fun err_message :: "js_error \<Rightarrow> string" where
  "err_message (TypeError m) = m"
| "err_message (AbortError m) = m"
| "err_message (Error m) = m"

text \<open>Truthiness, as \<^verbatim>\<open>if (v)\<close>, \<^verbatim>\<open>!v\<close> and \<^verbatim>\<open>a && b\<close> test it.\<close>

fun truthy :: "json \<Rightarrow> bool" where
  "truthy JNull = False"
| "truthy (JBool b) = b"
| "truthy (JNum n) = (n \<noteq> 0)"
| "truthy (JStr s) = (s \<noteq> [])"
| "truthy (JArr xs) = True"
| "truthy (JObj kvs) = True"

fun truthyv :: "jsval \<Rightarrow> bool" where
  "truthyv None = False"
| "truthyv (Some v) = truthy v"

text \<open>
  \<open>jsget v k\<close> is the read \<^verbatim>\<open>v.k\<close> on a value that is not \<^verbatim>\<open>null\<close>, for the keys
  this file reads (\<^verbatim>\<open>content\<close>, \<^verbatim>\<open>parts\<close>, \<^verbatim>\<open>text\<close>, \<^verbatim>\<open>name\<close>, ...): none of them
  is a property of the prototypes of strings, numbers, booleans or arrays, so only an
  object can answer with something other than \<^verbatim>\<open>undefined\<close>. The read on
  \<^verbatim>\<open>null\<close> raises a TypeError: every function below that reads a property of a
  value that may be \<^verbatim>\<open>null\<close> has a branch for it.
\<close>

fun jsget :: "json \<Rightarrow> string \<Rightarrow> jsval" where
  "jsget (JObj kvs) k = map_of kvs k"
| "jsget _ k = None"

text \<open>\<^verbatim>\<open>v?.k\<close>: \<^verbatim>\<open>undefined\<close> when \<open>v\<close> is \<^verbatim>\<open>undefined\<close> or \<^verbatim>\<open>null\<close>.\<close>

fun optchain :: "jsval \<Rightarrow> string \<Rightarrow> jsval" where
  "optchain None k = None"
| "optchain (Some JNull) k = None"
| "optchain (Some v) k = jsget v k"

text \<open>
  \<^verbatim>\<open>for (const x of v)\<close>: an array gives its elements, a string its characters (each a
  string of length one), anything else is not iterable.
\<close>

fun iterate :: "json \<Rightarrow> js_error + json list" where
  "iterate (JArr xs) = Inr xs"
| "iterate (JStr s) = Inr (map (\<lambda>c. JStr [c]) s)"
| "iterate _ = Inl (TypeError ''value is not iterable'')"

text \<open>
  \<^verbatim>\<open>String.prototype.trim\<close>: the white space and line terminators of ECMAScript whose
  code unit is below 256 are TAB, LF, VT, FF, CR, SP and NBSP.
\<close>

definition is_ws :: "char \<Rightarrow> bool" where
  "is_ws c = ((of_char c :: nat) \<in> {9, 10, 11, 12, 13, 32, 160})"

definition trim :: "string \<Rightarrow> string" where
  "trim s = rev (dropWhile is_ws (rev (dropWhile is_ws s)))"

section \<open>Classification of stream events\<close>

datatype EventType =
    FUNCTION_CALL
  | FUNCTION_RESPONSE
  | TEXT
  | TEXT_PARTIAL
  | ERROR
  | THINKING

text \<open>
  The object \<^verbatim>\<open>parseEvent\<close> returns is tagged by its \<^verbatim>\<open>type\<close>; each tag comes with
  its own fields and with \<^verbatim>\<open>raw\<close>, the event itself:
  \<^verbatim>\<open>{type, name, args, raw}\<close>, \<^verbatim>\<open>{type, name, response, raw}\<close>,
  \<^verbatim>\<open>{type, text, raw}\<close> and \<^verbatim>\<open>{type, raw}\<close>.
\<close>

datatype parsed =
    FunctionCall jsval jsval json
  | FunctionResponse jsval jsval json
  | Text string json
  | TextPartial string json
  | Thinking json

fun ptype :: "parsed \<Rightarrow> EventType" where
  "ptype (FunctionCall n a r) = FUNCTION_CALL"
| "ptype (FunctionResponse n rsp r) = FUNCTION_RESPONSE"
| "ptype (Text t r) = TEXT"
| "ptype (TextPartial t r) = TEXT_PARTIAL"
| "ptype (Thinking r) = THINKING"

text \<open>The fields \<^verbatim>\<open>text\<close> and \<^verbatim>\<open>response\<close> of a classified event (\<open>None\<close>: absent).\<close>

fun ptext :: "parsed \<Rightarrow> string option" where
  "ptext (Text t r) = Some t"
| "ptext (TextPartial t r) = Some t"
| "ptext _ = None"

fun presponse :: "parsed \<Rightarrow> jsval" where
  "presponse (FunctionResponse n rsp r) = rsp"
| "presponse _ = None"

fun praw :: "parsed \<Rightarrow> json" where
  "praw (FunctionCall n a r) = r"
| "praw (FunctionResponse n rsp r) = r"
| "praw (Text t r) = r"
| "praw (TextPartial t r) = r"
| "praw (Thinking r) = r"

text \<open>\<^verbatim>\<open>event?.content?.parts ?? []\<close>\<close>

definition event_parts :: "json \<Rightarrow> json" where
  "event_parts event =
     (case optchain (optchain (Some event) ''content'') ''parts'' of
        None \<Rightarrow> JArr []
      | Some JNull \<Rightarrow> JArr []
      | Some ps \<Rightarrow> ps)"

text \<open>
  One pass of the loop \<^verbatim>\<open>for (const part of parts)\<close> of \<^verbatim>\<open>parseEvent\<close>: the three
  checks are made on the current part, in the order function call, function response,
  text, and the first part that passes one of them decides. Reading a property of a
  \<^verbatim>\<open>null\<close> part raises.
\<close>

definition classify_part :: "json \<Rightarrow> json \<Rightarrow> js_error + parsed option" where
  "classify_part event part =
     (if part = JNull
      then Inl (TypeError ''Cannot read properties of null (reading functionCall)'')
      else if truthyv (jsget part ''functionCall'')
      then Inr (Some (FunctionCall
                  (optchain (jsget part ''functionCall'') ''name'')
                  (optchain (jsget part ''functionCall'') ''args'') event))
      else if truthyv (jsget part ''functionResponse'')
      then Inr (Some (FunctionResponse
                  (optchain (jsget part ''functionResponse'') ''name'')
                  (optchain (jsget part ''functionResponse'') ''response'') event))
      else (case jsget part ''text'' of
              Some (JStr t) \<Rightarrow>
                if trim t \<noteq> []
                then Inr (Some (if truthyv (jsget event ''partial'')
                                then TextPartial (trim t) event
                                else Text (trim t) event))
                else Inr None
            | _ \<Rightarrow> Inr None))"

fun parse_parts :: "json \<Rightarrow> json list \<Rightarrow> js_error + parsed" where
  "parse_parts event [] = Inr (Thinking event)"
| "parse_parts event (part # rest) =
     (case classify_part event part of
        Inl e \<Rightarrow> Inl e
      | Inr (Some p) \<Rightarrow> Inr p
      | Inr None \<Rightarrow> parse_parts event rest)"

definition parseEvent :: "json \<Rightarrow> js_error + parsed" where
  "parseEvent event =
     (case iterate (event_parts event) of
        Inl e \<Rightarrow> Inl e
      | Inr parts \<Rightarrow> parse_parts event parts)"

section \<open>Products of a turn\<close>

text \<open>
  \<^verbatim>\<open>extractProducts\<close>: what one classified event pushes, then the filter
  \<^verbatim>\<open>p => p.name && p.price\<close> over everything pushed. The filter reads a property of each
  element, which raises on \<^verbatim>\<open>null\<close>.
\<close>

definition pushed :: "parsed \<Rightarrow> json list" where
  "pushed event =
     (if ptype event = FUNCTION_RESPONSE
      then (case optchain (presponse event) ''products'' of
              Some (JArr ps) \<Rightarrow> ps
            | _ \<Rightarrow> [])
           @ (case optchain (presponse event) ''product'' of
                Some p \<Rightarrow> if truthy p then [p] else []
              | None \<Rightarrow> [])
      else [])"

definition has_name_and_price :: "json \<Rightarrow> bool" where
  "has_name_and_price p = (truthyv (jsget p ''name'') \<and> truthyv (jsget p ''price''))"

fun filter_products :: "json list \<Rightarrow> js_error + json list" where
  "filter_products [] = Inr []"
| "filter_products (p # ps) =
     (if p = JNull
      then Inl (TypeError ''Cannot read properties of null (reading name)'')
      else (case filter_products ps of
              Inl e \<Rightarrow> Inl e
            | Inr qs \<Rightarrow> Inr (if has_name_and_price p then p # qs else qs)))"

definition extractProducts :: "parsed list \<Rightarrow> js_error + json list" where
  "extractProducts events = filter_products (concat (map pushed events))"

section \<open>Identity\<close>

definition STORAGE_KEY_USER_ID :: string where
  "STORAGE_KEY_USER_ID = ''gavigans_chat_user_id''"

definition STORAGE_KEY_SESSION_ID :: string where
  "STORAGE_KEY_SESSION_ID = ''gavigans_chat_session_id''"

text \<open>
  \<^verbatim>\<open>localStorage\<close> maps keys to strings (\<^verbatim>\<open>getItem\<close> answers \<^verbatim>\<open>null\<close>, here
  \<open>None\<close>, for a missing key). The launch parameters are the decoded pairs of
  \<^verbatim>\<open>window.location.search\<close>; \<^verbatim>\<open>URLSearchParams.get\<close> answers the first value of a
  name, or \<^verbatim>\<open>null\<close>.
\<close>

type_synonym storage = "string \<rightharpoonup> string"
type_synonym url_params = "(string \<times> string) list"

definition params_get :: "url_params \<Rightarrow> string \<Rightarrow> string option" where
  "params_get params k = map_of params k"

text \<open>
  ToInt32 of ECMAScript on an integer: the value modulo \<open>2 ^ 32\<close>, read as two's
  complement. \<^verbatim>\<open>hash << 5\<close> and \<^verbatim>\<open>hash & hash\<close> both end with it; the subtraction and
  the addition between them are exact (the operands stay far below \<open>2 ^ 53\<close>).
\<close>

definition toInt32 :: "int \<Rightarrow> int" where
  "toInt32 x = (let m = x mod 2 ^ 32 in if 2 ^ 31 \<le> m then m - 2 ^ 32 else m)"

fun hash_loop :: "int \<Rightarrow> string \<Rightarrow> int" where
  "hash_loop hash [] = hash"
| "hash_loop hash (c # cs) =
     hash_loop (toInt32 ((toInt32 (toInt32 hash * 2 ^ 5) - hash) + of_char c)) cs"

text \<open>\<^verbatim>\<open>Number.prototype.toString(radix)\<close> on an integer, for a radix from 2 to 36.\<close>

definition digit_char :: "int \<Rightarrow> char" where
  "digit_char d = ''0123456789abcdefghijklmnopqrstuvwxyz'' ! nat (d mod 36)"

function toString_radix :: "int \<Rightarrow> int \<Rightarrow> string" where
  "toString_radix radix n =
     (if n < 0 then ''-'' @ toString_radix radix (- n)
      else if radix < 2 \<or> n < radix then [digit_char n]
      else toString_radix radix (n div radix) @ [digit_char (n mod radix)])"
  by pat_completeness auto
termination
proof (relation "measure (\<lambda>(radix, n). if n < 0 then Suc (nat (- n)) else nat n)")
  show "wf (measure (\<lambda>(radix :: int, n :: int). if n < 0 then Suc (nat (- n)) else nat n))"
    by simp
next
  fix radix n :: int
  assume "n < 0"
  then show "((radix, - n), (radix, n))
      \<in> measure (\<lambda>(radix, n). if n < 0 then Suc (nat (- n)) else nat n)"
    by simp
next
  fix radix n :: int
  assume "\<not> n < 0" and "\<not> (radix < 2 \<or> n < radix)"
  then have "0 < n" and "2 \<le> radix" and "n div radix < n"
    by (auto intro: int_div_less_self)
  moreover from \<open>0 < n\<close> \<open>2 \<le> radix\<close> have "0 \<le> n div radix"
    by (simp add: pos_imp_zdiv_nonneg_iff)
  ultimately show "((radix, n div radix), (radix, n))
      \<in> measure (\<lambda>(radix, n). if n < 0 then Suc (nat (- n)) else nat n)"
    by simp
qed

declare toString_radix.simps [simp del]

definition hashEmail :: "string \<Rightarrow> string" where
  "hashEmail email = ''user_'' @ toString_radix 36 \<bar>hash_loop 0 email\<bar>"

text \<open>
  \<^verbatim>\<open>randomId(prefix)\<close>, with \<open>pfx\<close> for the prefix: \<open>rnd\<close> stands for
  \<^verbatim>\<open>Math.random().toString(36).slice(2, 8)\<close>, the draw of the page load.
\<close>

definition randomId :: "string \<Rightarrow> string \<Rightarrow> string" where
  "randomId rnd pfx = pfx @ ''_'' @ rnd"

text \<open>
  \<^verbatim>\<open>getPersistentUserId\<close> returns the user id and the store it leaves. The tests
  \<^verbatim>\<open>if (customerEmail)\<close> and \<^verbatim>\<open>if (storedUserId)\<close> pass on a non-empty string
  (\<open>Some (c # cs)\<close>) and fail on \<^verbatim>\<open>null\<close> and on the empty string.
\<close>

definition getPersistentUserId :: "url_params \<Rightarrow> string \<Rightarrow> storage \<Rightarrow> string \<times> storage" where
  "getPersistentUserId params rnd store =
     (case params_get params ''customer_email'' of
        Some (c # cs) \<Rightarrow>
          (let userId = hashEmail (c # cs)
           in (userId, store(STORAGE_KEY_USER_ID \<mapsto> userId)))
      | _ \<Rightarrow>
          (case store STORAGE_KEY_USER_ID of
             Some (c # cs) \<Rightarrow> (c # cs, store)
           | _ \<Rightarrow>
               (let newUserId = randomId rnd ''user''
                in (newUserId, store(STORAGE_KEY_USER_ID \<mapsto> newUserId)))))"

definition getStoredSessionId :: "storage \<Rightarrow> string option" where
  "getStoredSessionId store = store STORAGE_KEY_SESSION_ID"

text \<open>A string or \<^verbatim>\<open>null\<close>/\<^verbatim>\<open>undefined\<close> is truthy when it is a non-empty string.\<close>

fun truthys :: "string option \<Rightarrow> bool" where
  "truthys None = False"
| "truthys (Some s) = (s \<noteq> [])"

definition storeSessionId :: "string option \<Rightarrow> storage \<Rightarrow> storage" where
  "storeSessionId sessionId store =
     (case sessionId of
        Some sid \<Rightarrow> if sid \<noteq> [] then store(STORAGE_KEY_SESSION_ID \<mapsto> sid) else store
      | None \<Rightarrow> store)"

definition clearStoredSession :: "storage \<Rightarrow> storage" where
  "clearStoredSession store = store(STORAGE_KEY_SESSION_ID := None)"

section \<open>Messages\<close>

text \<open>
  A Message of the chat: \<^verbatim>\<open>{role, text, author?, timestamp?, products?, toolCalls?,
  events?}\<close>; an absent field is \<open>None\<close>. The two literals of the source that hold
  characters beyond code unit 255 (an emoji in the welcome text and one in front of the
  error text) are written here without them.
\<close>

record message =
  m_role :: string
  m_text :: jsval
  m_author :: jsval
  m_timestamp :: jsval
  m_products :: "json list option"
  m_toolCalls :: "parsed list option"
  m_events :: "parsed list option"

definition plain_message :: "string \<Rightarrow> jsval \<Rightarrow> message" where
  "plain_message role text =
     \<lparr>m_role = role, m_text = text, m_author = None, m_timestamp = None,
      m_products = None, m_toolCalls = None, m_events = None\<rparr>"

definition WELCOME_MESSAGE :: message where
  "WELCOME_MESSAGE =
     plain_message ''system''
       (Some (JStr (''Welcome to Gavigans! '' @ [CHR 0x0A, CHR 0x0A]
                    @ ''I'' @ [CHR 0x27] @ ''m your AI assistant powered by AiPRL Assist.''
                    @ [CHR 0x0A] @ ''How can I help you today?'')))"

definition AI_PAUSED :: string where
  "AI_PAUSED = ''__AI_PAUSED__''"

subsection \<open>History of a recovered session\<close>

text \<open>
  \<^verbatim>\<open>parts.filter(p => p.text && p.text.trim()).map(p => p.text.trim())\<close>: the filter
  reads \<^verbatim>\<open>p.text\<close> (a TypeError on a \<^verbatim>\<open>null\<close> part) and calls \<^verbatim>\<open>trim\<close> on
  every truthy \<^verbatim>\<open>text\<close> (a TypeError when that is not a string).
\<close>

fun text_parts :: "json list \<Rightarrow> js_error + string list" where
  "text_parts [] = Inr []"
| "text_parts (p # ps) =
     (if p = JNull
      then Inl (TypeError ''Cannot read properties of null (reading text)'')
      else if \<not> truthyv (jsget p ''text'') then text_parts ps
      else (case jsget p ''text'' of
              Some (JStr t) \<Rightarrow>
                (case text_parts ps of
                   Inl e \<Rightarrow> Inl e
                 | Inr ts \<Rightarrow> Inr (if trim t \<noteq> [] then trim t # ts else ts))
            | _ \<Rightarrow> Inl (TypeError ''p.text.trim is not a function'')))"

text \<open>\<^verbatim>\<open>Array.prototype.join(' ')\<close>\<close>

fun join_space :: "string list \<Rightarrow> string" where
  "join_space [] = []"
| "join_space [t] = t"
| "join_space (t # ts) = t @ '' '' @ join_space ts"

definition author_role :: "jsval \<Rightarrow> string" where
  "author_role author =
     (if author = Some (JStr ''user'') then ''user''
      else if author = Some (JStr ''human_agent'') then ''agent''
      else if author = Some (JStr ''system'') then ''system''
      else ''agent'')"

text \<open>
  One pass of the loop of \<^verbatim>\<open>parseEventsToMessages\<close>; \<open>Inr None\<close> is
  \<^verbatim>\<open>continue\<close>.
\<close>

definition event_message :: "json \<Rightarrow> js_error + message option" where
  "event_message event =
     (if event = JNull
      then Inl (TypeError ''Cannot read properties of null (reading content)'')
      else (case optchain (jsget event ''content'') ''parts'' of
              None \<Rightarrow> Inr None
            | Some parts \<Rightarrow>
                if \<not> truthy parts then Inr None
                else (case parts of
                        JArr ps \<Rightarrow>
                          (case text_parts ps of
                             Inl e \<Rightarrow> Inl e
                           | Inr ts \<Rightarrow>
                               let textParts = join_space ts in
                               if textParts = [] \<or> textParts = AI_PAUSED then Inr None
                               else Inr (Some
                                 \<lparr>m_role = author_role (jsget event ''author''),
                                  m_text = Some (JStr textParts),
                                  m_author = jsget event ''author'',
                                  m_timestamp = jsget event ''timestamp'',
                                  m_products = None, m_toolCalls = None,
                                  m_events = None\<rparr>))
                      | _ \<Rightarrow> Inl (TypeError ''event.content.parts.filter is not a function''))))"

fun events_messages :: "json list \<Rightarrow> js_error + message list" where
  "events_messages [] = Inr []"
| "events_messages (event # rest) =
     (case event_message event of
        Inl e \<Rightarrow> Inl e
      | Inr m \<Rightarrow>
          (case events_messages rest of
             Inl e \<Rightarrow> Inl e
           | Inr ms \<Rightarrow> Inr (case m of None \<Rightarrow> ms | Some msg \<Rightarrow> msg # ms)))"

definition parseEventsToMessages :: "json \<Rightarrow> js_error + message list" where
  "parseEventsToMessages events =
     (case iterate events of
        Inl e \<Rightarrow> Inl e
      | Inr evs \<Rightarrow> events_messages evs)"

section \<open>The hook\<close>

text \<open>
  The state of one page: the six \<^verbatim>\<open>useState\<close> cells, the refs, and
  \<^verbatim>\<open>localStorage\<close>. Three more fields record what the page has done and is waiting
  for: \<open>network\<close>, every request issued so far, oldest first; \<open>pending\<close>, the calls
  suspended at an \<^verbatim>\<open>await\<close>; \<open>returned\<close>, the outcomes of the direct calls of
  \<^verbatim>\<open>ensureSession\<close> that have settled.

  A session id is a string, \<^verbatim>\<open>null\<close> or \<^verbatim>\<open>undefined\<close> (\<open>None\<close> for the last two).
  \<^verbatim>\<open>aiPaused\<close> is kept as the truthiness of the value stored in it, which is all the
  hook reads of it. An entry of the live feed is the classified event; the clock values
  \<^verbatim>\<open>id\<close> and \<^verbatim>\<open>timestamp\<close> added to it are left out.
\<close>

datatype status = idle | loading | streaming | human_mode | recovering

datatype request =
    GetSession string string
  | PostSession string
  | PostRunSse string "string option" string
  | ListenInbox "string option" string

text \<open>
  How a \<^verbatim>\<open>fetch\<close> followed by \<^verbatim>\<open>response.json()\<close> can end: the fetch rejects;
  it resolves with \<^verbatim>\<open>response.ok\<close> false and a status code; the body cannot be read
  as the caller reads it; or the body is there.
\<close>

datatype 'a response =
    Rejected js_error
  | NotOk int
  | BadBody js_error
  | Ok 'a

text \<open>
  Who awaits \<^verbatim>\<open>ensureSession\<close>: a direct caller, the effect run on mount, or a call of
  \<^verbatim>\<open>sendMessage\<close>, which carries the \<^verbatim>\<open>aiPaused\<close> of the render that created the
  callback (a constant of its closure) and the trimmed text of the turn.
\<close>

datatype caller = Direct | Mount | Turn bool string

text \<open>
  A suspended call: \<^verbatim>\<open>ensureSession\<close> awaiting \<^verbatim>\<open>tryRecoverSession\<close> or the
  creation request; \<^verbatim>\<open>sendMessage\<close> awaiting the request to \<^verbatim>\<open>/run_sse\<close> or the
  next \<^verbatim>\<open>reader.read()\<close>, with its locals \<^verbatim>\<open>allEvents\<close> and
  \<^verbatim>\<open>accumulatedText\<close>.
\<close>

datatype task =
    AwaitRecover caller
  | AwaitCreate caller
  | AwaitRunSse bool
  | AwaitRead bool "parsed list" string

record hook =
  messages :: "message list"
  liveEvents :: "parsed list"
  status :: status
  streamingText :: string
  aiPaused :: bool
  isRecovered :: bool
  userIdRef :: string
  sessionIdRef :: "string option"
  sessionCreatedRef :: bool
  sessionRecoveryAttempted :: bool
  listenEventSourceRef :: "(string option \<times> string) option"
  localStorage :: storage
  network :: "request list"
  pending :: "task list"
  returned :: "(js_error + string option) list"

text \<open>The first render: \<^verbatim>\<open>useState\<close> and \<^verbatim>\<open>useRef\<close> initial values.\<close>

definition useSSEChat :: "url_params \<Rightarrow> string \<Rightarrow> storage \<Rightarrow> hook" where
  "useSSEChat params rnd store =
     (let (userId, store') = getPersistentUserId params rnd store in
      \<lparr>messages = [WELCOME_MESSAGE],
       liveEvents = [],
       status = idle,
       streamingText = [],
       aiPaused = False,
       isRecovered = False,
       userIdRef = userId,
       sessionIdRef = getStoredSessionId store',
       sessionCreatedRef = False,
       sessionRecoveryAttempted = False,
       listenEventSourceRef = None,
       localStorage = store',
       network = [],
       pending = [],
       returned = []\<rparr>)"

subsection \<open>The inbound listener\<close>

definition startListening :: "string option \<Rightarrow> string \<Rightarrow> hook \<Rightarrow> hook" where
  "startListening sessionId userId s =
     s\<lparr>listenEventSourceRef := Some (sessionId, userId),
       network := network s @ [ListenInbox sessionId userId]\<rparr>"

text \<open>
  \<^verbatim>\<open>eventSource.onmessage\<close>: \<^verbatim>\<open>event.data\<close> either parses to a JSON value or it does
  not; the \<^verbatim>\<open>catch\<close> swallows the parse error and the TypeError of reading
  \<^verbatim>\<open>data.type\<close> on \<^verbatim>\<open>null\<close>. \<open>now\<close> is \<^verbatim>\<open>new Date().toISOString()\<close>.
\<close>

datatype inbound = InboundJson json | InboundNotJson

definition onmessage :: "string \<Rightarrow> inbound \<Rightarrow> hook \<Rightarrow> hook" where
  "onmessage now d s =
     (case d of
        InboundNotJson \<Rightarrow> s
      | InboundJson data \<Rightarrow>
          if data = JNull then s
          else
            (let s1 = (if jsget data ''type'' = Some (JStr ''new_message'')
                       then s\<lparr>messages := messages s @
                              [\<lparr>m_role = ''agent'',
                                m_text = jsget data ''content'',
                                m_author = jsget data ''author'',
                                m_timestamp = jsget data ''timestamp'',
                                m_products = None, m_toolCalls = None,
                                m_events = None\<rparr>]\<rparr>
                       else s)
             in if jsget data ''type'' = Some (JStr ''ai_status_changed'')
                then (let s2 = s1\<lparr>aiPaused := truthyv (jsget data ''ai_paused'')\<rparr>
                      in if truthyv (jsget data ''message'')
                         then s2\<lparr>messages := messages s2 @
                                [\<lparr>m_role = ''system'',
                                  m_text = jsget data ''message'',
                                  m_author = None,
                                  m_timestamp = Some (JStr now),
                                  m_products = None, m_toolCalls = None,
                                  m_events = None\<rparr>]\<rparr>
                         else s2)
                else s1))"

subsection \<open>Recovery of a stored session\<close>

text \<open>\<^verbatim>\<open>session.events.length === 0\<close> on a truthy \<^verbatim>\<open>session.events\<close>.\<close>

fun length_is_0 :: "json \<Rightarrow> bool" where
  "length_is_0 (JArr xs) = (xs = [])"
| "length_is_0 (JStr t) = (t = [])"
| "length_is_0 (JObj kvs) = (map_of kvs ''length'' = Some (JNum 0))"
| "length_is_0 _ = False"

text \<open>
  \<^verbatim>\<open>tryRecoverSession\<close> from the point where the lookup has settled. Its value is
  \<^verbatim>\<open>null\<close> (\<open>None\<close>) or the session; every exception inside is caught and gives
  \<^verbatim>\<open>null\<close>.
\<close>

definition tryRecoverSession :: "json response \<Rightarrow> hook \<Rightarrow> jsval \<times> hook" where
  "tryRecoverSession r s =
     (case r of
        Rejected e \<Rightarrow> (None, s)
      | NotOk code \<Rightarrow> (None, s)
      | BadBody e \<Rightarrow> (None, s)
      | Ok session \<Rightarrow>
          if \<not> truthy session then (Some session, s)
          else (case jsget session ''events'' of
                  None \<Rightarrow> (Some session, s)
                | Some events \<Rightarrow>
                    if \<not> truthy events \<or> length_is_0 events then (Some session, s)
                    else (case parseEventsToMessages events of
                            Inl e \<Rightarrow> (None, s)
                          | Inr recoveredMessages \<Rightarrow>
                              (let s1 = (if recoveredMessages \<noteq> []
                                         then s\<lparr>messages := WELCOME_MESSAGE # recoveredMessages,
                                                isRecovered := True\<rparr>
                                         else s);
                                   s2 = (if truthyv (optchain (jsget session ''state'')
                                                       ''ai_paused'')
                                         then s1\<lparr>aiPaused := True\<rparr>
                                         else s1)
                               in (Some session, s2)))))"

subsection \<open>A turn\<close>

text \<open>
  The \<^verbatim>\<open>catch\<close> and \<^verbatim>\<open>finally\<close> blocks of \<^verbatim>\<open>sendMessage\<close>. The
  \<^verbatim>\<open>aiPaused\<close> they read is the constant of the closure, not the state cell.
\<close>

definition sendMessage_finally :: "bool \<Rightarrow> hook \<Rightarrow> hook" where
  "sendMessage_finally aiPaused0 s =
     s\<lparr>status := (if \<not> aiPaused0 then idle else human_mode),
       liveEvents := [],
       streamingText := []\<rparr>"

definition sendMessage_catch :: "bool \<Rightarrow> js_error \<Rightarrow> hook \<Rightarrow> hook" where
  "sendMessage_catch aiPaused0 error s =
     sendMessage_finally aiPaused0
       (if err_name error \<noteq> ''AbortError''
        then s\<lparr>messages := messages s @
               [plain_message ''agent''
                  (Some (JStr (''Error: '' @ err_message error
                               @ ''. Please check if the server is running.'')))]\<rparr>
        else s)"

text \<open>
  A line of the response: a line that starts with \<^verbatim>\<open>data: \<close> and whose rest parses
  to a JSON value, such a line whose rest does not parse, or any other line.
\<close>

datatype sse_line = Data json | BadData | NoData

text \<open>
  The body of \<^verbatim>\<open>for (const line of lines)\<close>, on the locals \<^verbatim>\<open>allEvents\<close> and
  \<^verbatim>\<open>accumulatedText\<close> and on the state. An exception of \<^verbatim>\<open>JSON.parse\<close> or of
  \<^verbatim>\<open>parseEvent\<close> is caught and the line is skipped.
\<close>

definition reduce_line :: "sse_line \<Rightarrow> parsed list \<times> string \<times> hook \<Rightarrow> parsed list \<times> string \<times> hook" where
  "reduce_line line st =
     (case st of (allEvents, accumulatedText, s) \<Rightarrow>
        (case line of
           NoData \<Rightarrow> st
         | BadData \<Rightarrow> st
         | Data eventData \<Rightarrow>
             (case parseEvent eventData of
                Inl e \<Rightarrow> st
              | Inr parsed \<Rightarrow>
                  (let s1 = (if ptype parsed = FUNCTION_CALL \<or> ptype parsed = FUNCTION_RESPONSE
                             then s\<lparr>liveEvents := liveEvents s @ [parsed]\<rparr>
                             else s)
                   in (case ptext parsed of
                         Some t \<Rightarrow>
                           if ptype parsed = TEXT_PARTIAL \<or> ptype parsed = TEXT
                           then (allEvents @ [parsed], t, s1\<lparr>streamingText := t\<rparr>)
                           else (allEvents @ [parsed], accumulatedText, s1)
                       | None \<Rightarrow> (allEvents @ [parsed], accumulatedText, s1))))))"

fun reduce_lines :: "sse_line list \<Rightarrow> parsed list \<times> string \<times> hook \<Rightarrow> parsed list \<times> string \<times> hook" where
  "reduce_lines [] st = st"
| "reduce_lines (line # lines) st = reduce_lines lines (reduce_line line st)"

text \<open>
  The candidate final text: the \<^verbatim>\<open>text\<close> of the last element of \<^verbatim>\<open>textEvents\<close>,
  else \<^verbatim>\<open>accumulatedText || ''\<close>. \<open>None\<close> is \<^verbatim>\<open>undefined\<close>.
\<close>

definition is_text_event :: "parsed \<Rightarrow> bool" where
  "is_text_event e = (ptype e = TEXT \<or> ptype e = TEXT_PARTIAL)"

definition final_text :: "parsed list \<Rightarrow> string \<Rightarrow> string option" where
  "final_text allEvents accumulatedText =
     (let textEvents = filter is_text_event allEvents in
      if length textEvents > 0 then ptext (last textEvents)
      else Some accumulatedText)"

text \<open>
  \<^verbatim>\<open>sendMessage\<close> from the end of the read loop (\<^verbatim>\<open>done\<close>) to the end of
  \<^verbatim>\<open>finally\<close>.
\<close>

definition sendMessage_done :: "bool \<Rightarrow> parsed list \<Rightarrow> string \<Rightarrow> hook \<Rightarrow> hook" where
  "sendMessage_done aiPaused0 allEvents accumulatedText s =
     (case final_text allEvents accumulatedText of
        None \<Rightarrow>
          sendMessage_catch aiPaused0
            (TypeError ''Cannot read properties of undefined (reading trim)'') s
      | Some finalText \<Rightarrow>
          if finalText = AI_PAUSED \<or> trim finalText = []
          then sendMessage_finally aiPaused0 (s\<lparr>aiPaused := True, status := human_mode\<rparr>)
          else (case extractProducts allEvents of
                  Inl e \<Rightarrow> sendMessage_catch aiPaused0 e s
                | Inr products \<Rightarrow>
                    sendMessage_finally aiPaused0
                      (s\<lparr>messages := messages s @
                          [\<lparr>m_role = ''agent'',
                            m_text = Some (JStr finalText),
                            m_author = None,
                            m_timestamp = None,
                            m_products = Some products,
                            m_toolCalls = Some (filter (\<lambda>e. ptype e = FUNCTION_CALL) allEvents),
                            m_events = Some allEvents\<rparr>]\<rparr>)))"

text \<open>
  The whole of a turn after the connection is open, for a response that delivers
  \<open>lines\<close> and then ends: \<^verbatim>\<open>setStatus('streaming')\<close>, the read loop, the
  finalization.
\<close>

definition sendMessage_stream :: "bool \<Rightarrow> sse_line list \<Rightarrow> hook \<Rightarrow> hook" where
  "sendMessage_stream aiPaused0 lines s =
     (case reduce_lines lines ([], [], s\<lparr>status := streaming\<rparr>) of
        (allEvents, accumulatedText, s') \<Rightarrow>
          sendMessage_done aiPaused0 allEvents accumulatedText s')"

subsection \<open>Session negotiation\<close>

text \<open>
  What happens when \<^verbatim>\<open>ensureSession\<close> settles, by caller. A direct caller gets the
  outcome. The effect on mount logs a failure and then runs
  \<^verbatim>\<open>setStatus(prev => prev === 'recovering' ? 'idle' : prev)\<close>. \<^verbatim>\<open>sendMessage\<close> goes on
  to the request to \<^verbatim>\<open>/run_sse\<close>, or to its \<^verbatim>\<open>catch\<close>.
\<close>

fun settle :: "caller \<Rightarrow> js_error + string option \<Rightarrow> hook \<Rightarrow> hook" where
  "settle Direct r s = s\<lparr>returned := returned s @ [r]\<rparr>"
| "settle Mount r s = s\<lparr>status := (if status s = recovering then idle else status s)\<rparr>"
| "settle (Turn aiPaused0 text) (Inl e) s = sendMessage_catch aiPaused0 e s"
| "settle (Turn aiPaused0 text) (Inr sessionId) s =
     s\<lparr>network := network s @ [PostRunSse (userIdRef s) sessionId text],
       pending := pending s @ [AwaitRunSse aiPaused0]\<rparr>"

text \<open>STEP 2 of \<^verbatim>\<open>ensureSession\<close>, up to the \<^verbatim>\<open>await fetch(createUrl, ...)\<close>.\<close>

definition ensureSession_create :: "caller \<Rightarrow> hook \<Rightarrow> hook" where
  "ensureSession_create c s =
     s\<lparr>sessionRecoveryAttempted := True,
       network := network s @ [PostSession (userIdRef s)],
       pending := pending s @ [AwaitCreate c]\<rparr>"

text \<open>\<^verbatim>\<open>ensureSession\<close> from its call to its first \<^verbatim>\<open>await\<close> or \<^verbatim>\<open>return\<close>.\<close>

definition ensureSession :: "caller \<Rightarrow> hook \<Rightarrow> hook" where
  "ensureSession c s =
     (if sessionCreatedRef s \<and> truthys (sessionIdRef s)
      then settle c (Inr (sessionIdRef s)) s
      else if \<not> sessionRecoveryAttempted s \<and> truthys (sessionIdRef s)
      then s\<lparr>sessionRecoveryAttempted := True,
             status := recovering,
             network := network s @
               [GetSession (userIdRef s) (case sessionIdRef s of Some sid \<Rightarrow> sid | None \<Rightarrow> [])],
             pending := pending s @ [AwaitRecover c]\<rparr>
      else ensureSession_create c s)"

text \<open>\<^verbatim>\<open>ensureSession\<close> from the point where \<^verbatim>\<open>tryRecoverSession\<close> has settled.\<close>

definition ensureSession_recovered :: "caller \<Rightarrow> json response \<Rightarrow> hook \<Rightarrow> hook" where
  "ensureSession_recovered c r s =
     (case tryRecoverSession r s of
        (recovered, s1) \<Rightarrow>
          if truthyv recovered
          then (let s2 = startListening (sessionIdRef s1) (userIdRef s1)
                           (s1\<lparr>sessionCreatedRef := True\<rparr>);
                    s3 = s2\<lparr>status := idle\<rparr>
                in settle c (Inr (sessionIdRef s3)) s3)
          else ensureSession_create c
                 (s1\<lparr>sessionIdRef := None,
                     localStorage := clearStoredSession (localStorage s1),
                     status := idle\<rparr>))"

text \<open>
  \<^verbatim>\<open>ensureSession\<close> from the point where the creation request has settled. The body
  is what \<^verbatim>\<open>session.id\<close> reads (a session id is a string when it is there);
  \<open>BadBody\<close> stands for a body that is not JSON or is \<^verbatim>\<open>null\<close>.
\<close>

definition ensureSession_created :: "caller \<Rightarrow> string option response \<Rightarrow> hook \<Rightarrow> hook" where
  "ensureSession_created c r s =
     (case r of
        Rejected e \<Rightarrow> settle c (Inl e) s
      | NotOk code \<Rightarrow>
          settle c (Inl (Error (''Failed to create session: '' @ toString_radix 10 code))) s
      | BadBody e \<Rightarrow> settle c (Inl e) s
      | Ok session_id \<Rightarrow>
          (let s1 = s\<lparr>sessionIdRef := session_id,
                      sessionCreatedRef := True,
                      localStorage := storeSessionId session_id (localStorage s)\<rparr>;
               s2 = startListening session_id (userIdRef s1) s1
           in settle c (Inr session_id) s2))"

subsection \<open>The operations of the page\<close>

text \<open>
  \<^verbatim>\<open>sendMessage\<close> from its call to the \<^verbatim>\<open>await ensureSession()\<close>. The \<^verbatim>\<open>status\<close>
  and \<^verbatim>\<open>aiPaused\<close> of its closure are those of the latest render, that is, of the
  state in which the user sends.
\<close>

definition sendMessage :: "string \<Rightarrow> hook \<Rightarrow> hook" where
  "sendMessage text s =
     (if trim text = [] \<or> (status s \<noteq> idle \<and> status s \<noteq> human_mode) then s
      else ensureSession (Turn (aiPaused s) (trim text))
             (s\<lparr>messages := messages s @ [plain_message ''user'' (Some (JStr (trim text)))],
                status := (if aiPaused s then human_mode else loading),
                liveEvents := [],
                streamingText := []\<rparr>))"

text \<open>
  \<^verbatim>\<open>reset\<close>. The \<^verbatim>\<open>abort()\<close> it sends changes no state here: the aborted request,
  if any, settles later by rejecting with an AbortError.
\<close>

definition reset :: "hook \<Rightarrow> hook" where
  "reset s =
     s\<lparr>listenEventSourceRef := None,
       messages := [WELCOME_MESSAGE],
       liveEvents := [],
       streamingText := [],
       status := idle,
       aiPaused := False,
       isRecovered := False,
       sessionIdRef := None,
       sessionCreatedRef := False,
       sessionRecoveryAttempted := False,
       localStorage := clearStoredSession (localStorage s)\<rparr>"

text \<open>The effect run on mount.\<close>

definition mountEffect :: "hook \<Rightarrow> hook" where
  "mountEffect s =
     (if truthys (getStoredSessionId (localStorage s)) \<and> \<not> sessionRecoveryAttempted s
      then ensureSession Mount s
      else s)"

text \<open>
  What the outside can answer to a suspended call: the session lookup settles, the
  creation request settles, the request to \<^verbatim>\<open>/run_sse\<close> settles, or
  \<^verbatim>\<open>reader.read()\<close> settles with a chunk of complete lines, with \<^verbatim>\<open>done\<close>, or by
  rejecting (as it does after \<^verbatim>\<open>cancelStream\<close>).
\<close>

datatype answer =
    Lookup "json response"
  | Creation "string option response"
  | Connection "unit response"
  | ReadChunk "sse_line list"
  | ReadDone
  | ReadRejected js_error

text \<open>
  The continuation of a suspended call on an answer of its kind; \<open>None\<close> when the
  answer is not of the kind the call waits for. A continuation runs to the next request
  or to the end of the call: the \<^verbatim>\<open>await\<close> between a \<^verbatim>\<open>fetch\<close> and its
  \<^verbatim>\<open>response.json()\<close>, and the one on the value of \<^verbatim>\<open>tryRecoverSession\<close>, are
  passed in the same step, since the code between them writes no state.
\<close>

fun resume :: "task \<Rightarrow> answer \<Rightarrow> hook \<Rightarrow> hook option" where
  "resume (AwaitRecover c) (Lookup r) s = Some (ensureSession_recovered c r s)"
| "resume (AwaitCreate c) (Creation r) s = Some (ensureSession_created c r s)"
| "resume (AwaitRunSse aiPaused0) (Connection r) s =
     Some (case r of
             Rejected e \<Rightarrow> sendMessage_catch aiPaused0 e s
           | NotOk code \<Rightarrow>
               sendMessage_catch aiPaused0 (Error (''API error '' @ toString_radix 10 code)) s
           | BadBody e \<Rightarrow> sendMessage_catch aiPaused0 e s
           | Ok u \<Rightarrow> s\<lparr>status := streaming, pending := pending s @ [AwaitRead aiPaused0 [] []]\<rparr>)"
| "resume (AwaitRead aiPaused0 allEvents accumulatedText) (ReadChunk lines) s =
     Some (case reduce_lines lines (allEvents, accumulatedText, s) of
             (allEvents', accumulatedText', s') \<Rightarrow>
               s'\<lparr>pending := pending s' @ [AwaitRead aiPaused0 allEvents' accumulatedText']\<rparr>)"
| "resume (AwaitRead aiPaused0 allEvents accumulatedText) ReadDone s =
     Some (sendMessage_done aiPaused0 allEvents accumulatedText s)"
| "resume (AwaitRead aiPaused0 allEvents accumulatedText) (ReadRejected e) s =
     Some (sendMessage_catch aiPaused0 e s)"
| "resume _ _ s = None"

text \<open>
  One event of the page. \<open>Settle i a\<close> gives the answer \<open>a\<close> to the \<open>i\<close>-th suspended
  call; it does nothing when there is no such call or the answer is not of its kind.
  \<open>Inbound now d\<close> is a message of the inbound subscription, whichever is open.
\<close>

datatype action =
    CallEnsureSession
  | MountEffect
  | SendMessage string
  | Settle nat answer
  | Inbound string inbound
  | Reset

definition remove_nth :: "nat \<Rightarrow> 'a list \<Rightarrow> 'a list" where
  "remove_nth i xs = take i xs @ drop (Suc i) xs"

fun step :: "action \<Rightarrow> hook \<Rightarrow> hook" where
  "step CallEnsureSession s = ensureSession Direct s"
| "step MountEffect s = mountEffect s"
| "step (SendMessage text) s = sendMessage text s"
| "step (Settle i a) s =
     (if i < length (pending s)
      then (case resume (pending s ! i) a (s\<lparr>pending := remove_nth i (pending s)\<rparr>) of
              Some s' \<Rightarrow> s'
            | None \<Rightarrow> s)
      else s)"
| "step (Inbound now d) s = onmessage now d s"
| "step Reset s = reset s"

fun run :: "action list \<Rightarrow> hook \<Rightarrow> hook" where
  "run [] s = s"
| "run (a # as) s = run as (step a s)"

text \<open>Counters over the requests issued so far.\<close>

fun is_lookup :: "request \<Rightarrow> bool" where
  "is_lookup (GetSession u sid) = True"
| "is_lookup _ = False"


definition recovery_fetches :: "hook \<Rightarrow> nat" where
  "recovery_fetches s = length (filter is_lookup (network s))"


section \<open>Notions used by the statements\<close>

text \<open>The type \<^verbatim>\<open>parseEvent\<close> gives an event, or the exception it raises.\<close>

definition classify :: "json \<Rightarrow> js_error + EventType" where
  "classify event = (case parseEvent event of Inl e \<Rightarrow> Inl e | Inr p \<Rightarrow> Inr (ptype p))"

text \<open>
  What a part carries, as the three checks of \<^verbatim>\<open>parseEvent\<close> test it:
  \<^verbatim>\<open>part.functionCall\<close>, \<^verbatim>\<open>part.functionResponse\<close>, and
  \<^verbatim>\<open>typeof part.text === 'string' && part.text.trim()\<close>.
\<close>

definition carries_call :: "json \<Rightarrow> bool" where
  "carries_call part = truthyv (jsget part ''functionCall'')"

definition carries_response :: "json \<Rightarrow> bool" where
  "carries_response part = truthyv (jsget part ''functionResponse'')"

definition carries_text :: "json \<Rightarrow> bool" where
  "carries_text part = (case jsget part ''text'' of Some (JStr t) \<Rightarrow> trim t \<noteq> [] | _ \<Rightarrow> False)"

definition decides :: "json \<Rightarrow> bool" where
  "decides part = (carries_call part \<or> carries_response part \<or> carries_text part)"

text \<open>The events that a sequence of lines classifies to, in order.\<close>

fun classified :: "sse_line list \<Rightarrow> parsed list" where
  "classified [] = []"
| "classified (Data eventData # lines) =
     (case parseEvent eventData of
        Inl e \<Rightarrow> classified lines
      | Inr p \<Rightarrow> p # classified lines)"
| "classified (BadData # lines) = classified lines"
| "classified (NoData # lines) = classified lines"

text \<open>The first entry of the message list is the welcome message.\<close>

definition welcome_first :: "hook \<Rightarrow> bool" where
  "welcome_first s = (case messages s of [] \<Rightarrow> False | m # ms \<Rightarrow> m = WELCOME_MESSAGE)"

text \<open>
  The latch of the recovery: once the flag is set, or the session id is gone, or a session
  is established, \<^verbatim>\<open>ensureSession\<close> does not take its recovery branch.
\<close>

definition latched :: "hook \<Rightarrow> bool" where
  "latched s = (sessionRecoveryAttempted s \<or> \<not> truthys (sessionIdRef s) \<or> sessionCreatedRef s)"

text \<open>
  The invariant of the recovery: no lookup has been made, or one has and the latch is
  closed. \<open>same_session\<close> relates two states that agree on what the latch and the
  count of lookups depend on.
\<close>

definition recovery_inv :: "hook \<Rightarrow> bool" where
  "recovery_inv s = (recovery_fetches s = 0 \<or> (recovery_fetches s = 1 \<and> latched s))"

definition same_session :: "hook \<Rightarrow> hook \<Rightarrow> bool" where
  "same_session s s' =
     (sessionRecoveryAttempted s' = sessionRecoveryAttempted s
      \<and> sessionIdRef s' = sessionIdRef s
      \<and> sessionCreatedRef s' = sessionCreatedRef s
      \<and> recovery_fetches s' = recovery_fetches s)"


text \<open>
  The loop of \<^verbatim>\<open>parseEvent\<close> passes over a part that is not \<^verbatim>\<open>null\<close> and carries
  none of the three; it stops at the first other part. \<open>reaches_null\<close> says that this
  first other part is a \<^verbatim>\<open>null\<close>.
\<close>

definition undecided :: "json \<Rightarrow> bool" where
  "undecided part = (part \<noteq> JNull \<and> \<not> decides part)"

definition reaches_null :: "json list \<Rightarrow> bool" where
  "reaches_null parts =
     (case dropWhile undecided parts of [] \<Rightarrow> False | part # rest \<Rightarrow> part = JNull)"

text \<open>
  A session is established with the id \<open>sid\<close>: the flag is set, the ref holds the id,
  and no call of \<^verbatim>\<open>ensureSession\<close> is suspended (the suspended calls, if any, are turns
  past their negotiation). \<open>turn_request_for sid\<close> holds of a request to \<^verbatim>\<open>/run_sse\<close>
  made for the session \<open>sid\<close>.
\<close>

fun turn_task :: "task \<Rightarrow> bool" where
  "turn_task (AwaitRunSse aiPaused0) = True"
| "turn_task (AwaitRead aiPaused0 allEvents accumulatedText) = True"
| "turn_task (AwaitRecover c) = False"
| "turn_task (AwaitCreate c) = False"


definition established :: "string \<Rightarrow> hook \<Rightarrow> bool" where
  "established sid s =
     (sessionCreatedRef s \<and> sessionIdRef s = Some sid \<and> list_all turn_task (pending s))"

subsection \<open>Example payloads\<close>

definition event_of_parts :: "json list \<Rightarrow> json" where
  "event_of_parts parts = JObj [(''content'', JObj [(''parts'', JArr parts)])]"

definition partial_event_of_parts :: "json list \<Rightarrow> json" where
  "partial_event_of_parts parts =
     JObj [(''content'', JObj [(''parts'', JArr parts)]), (''partial'', JBool True)]"

definition text_part :: "string \<Rightarrow> json" where
  "text_part t = JObj [(''text'', JStr t)]"

definition call_part :: "string \<Rightarrow> json" where
  "call_part name = JObj [(''functionCall'', JObj [(''name'', JStr name), (''args'', JObj [])])]"

definition response_part :: "string \<Rightarrow> json \<Rightarrow> json" where
  "response_part name response =
     JObj [(''functionResponse'', JObj [(''name'', JStr name), (''response'', response)])]"

definition sofa_a :: json where
  "sofa_a = JObj [(''name'', JStr ''Sofa A''), (''price'', JNum 499)]"

definition fresh_page :: hook where
  "fresh_page = useSSEChat [] ''k3x9qa'' Map.empty"

definition returning_page :: hook where
  "returning_page =
     useSSEChat [] ''k3x9qa''
       [STORAGE_KEY_USER_ID \<mapsto> ''user_ab12cd'', STORAGE_KEY_SESSION_ID \<mapsto> ''sess-1'']"

text \<open>
  Three responses: a function call, three partial texts and a final text; the same with
  the pause sentinel as final text; a function response with one product and a final
  text.
\<close>

definition options_stream :: "sse_line list" where
  "options_stream =
     [Data (event_of_parts [call_part ''search_products'']),
      Data (partial_event_of_parts [text_part ''Here'']),
      Data (partial_event_of_parts [text_part ''Here are'']),
      Data (partial_event_of_parts [text_part ''Here are some'']),
      Data (event_of_parts [text_part ''Here are some options''])]"

definition paused_stream :: "sse_line list" where
  "paused_stream =
     [Data (event_of_parts [call_part ''handoff'']),
      Data (partial_event_of_parts [text_part ''One'']),
      Data (partial_event_of_parts [text_part ''One moment'']),
      Data (partial_event_of_parts [text_part ''One moment please'']),
      Data (event_of_parts [text_part ''__AI_PAUSED__''])]"

definition sofa_stream :: "sse_line list" where
  "sofa_stream =
     [Data (event_of_parts
              [response_part ''search_products'' (JObj [(''products'', JArr [sofa_a])])]),
      Data (event_of_parts [text_part ''Here are some options''])]"

section \<open>Classification: lemmas\<close>

lemma classify_part_cases:
  "part \<noteq> JNull \<Longrightarrow>
   classify_part event part =
     Inr (if carries_call part
          then Some (FunctionCall (optchain (jsget part ''functionCall'') ''name'')
                       (optchain (jsget part ''functionCall'') ''args'') event)
          else if carries_response part
          then Some (FunctionResponse (optchain (jsget part ''functionResponse'') ''name'')
                       (optchain (jsget part ''functionResponse'') ''response'') event)
          else if carries_text part
          then (case jsget part ''text'' of
                  Some (JStr t) \<Rightarrow>
                    Some (if truthyv (jsget event ''partial'')
                          then TextPartial (trim t) event else Text (trim t) event)
                | _ \<Rightarrow> None)
          else None)"
  by (simp add: classify_part_def carries_call_def carries_response_def carries_text_def
      split: option.splits json.splits)

lemma classify_part_undecided:
  "part \<noteq> JNull \<Longrightarrow> \<not> decides part \<Longrightarrow> classify_part event part = Inr None"
  by (simp add: classify_part_cases decides_def)

lemma classify_part_decided_type:
  "part \<noteq> JNull \<Longrightarrow> decides part \<Longrightarrow>
   \<exists>p. classify_part event part = Inr (Some p) \<and>
     ptype p = (if carries_call part then FUNCTION_CALL
                else if carries_response part then FUNCTION_RESPONSE
                else if truthyv (jsget event ''partial'') then TEXT_PARTIAL else TEXT)"
  by (auto simp add: classify_part_cases decides_def carries_text_def
      split: option.splits json.splits)

lemma parse_parts_find:
  "JNull \<notin> set parts \<Longrightarrow>
   \<exists>p. parse_parts event parts = Inr p \<and>
     ptype p = (case find decides parts of
                  None \<Rightarrow> THINKING
                | Some part \<Rightarrow>
                    if carries_call part then FUNCTION_CALL
                    else if carries_response part then FUNCTION_RESPONSE
                    else if truthyv (jsget event ''partial'') then TEXT_PARTIAL else TEXT)"
proof (induction parts)
  case Nil
  show ?case by simp
next
  case (Cons part rest)
  then have nn: "part \<noteq> JNull" and rest: "JNull \<notin> set rest" by auto
  show ?case
  proof (cases "decides part")
    case True
    from classify_part_decided_type [OF nn True, of event] obtain p where
      "classify_part event part = Inr (Some p)"
      "ptype p = (if carries_call part then FUNCTION_CALL
                else if carries_response part then FUNCTION_RESPONSE
                else if truthyv (jsget event ''partial'') then TEXT_PARTIAL else TEXT)"
      by blast
    with True show ?thesis by simp
  next
    case False
    with classify_part_undecided [OF nn False, of event] Cons.IH [OF rest]
    show ?thesis by simp
  qed
qed

lemma dropWhile_rev_stable:
  assumes "u = [] \<or> \<not> P (hd u)"
  shows "dropWhile P (rev (dropWhile P (rev u))) = rev (dropWhile P (rev u))"
proof (cases "dropWhile P (rev u) = []")
  case True
  then show ?thesis by (simp only: rev.simps dropWhile.simps)
next
  case False
  define v where "v = dropWhile P (rev u)"
  have split: "u = rev v @ rev (takeWhile P (rev u))"
    unfolding v_def by (metis rev_append rev_rev_ident takeWhile_dropWhile_id)
  from False have "rev v \<noteq> []" by (simp add: v_def)
  with split have "hd (rev v) = hd u" by (metis hd_append2)
  moreover from False have "u \<noteq> []" by auto
  ultimately have "\<not> P (hd (rev v))" using assms by simp
  with \<open>rev v \<noteq> []\<close> have "dropWhile P (rev v) = rev v"
    by (cases "rev v") simp_all
  then show ?thesis by (simp add: v_def)
qed

lemma trim_trim: "trim (trim s) = trim s"
proof -
  have "dropWhile is_ws s = [] \<or> \<not> is_ws (hd (dropWhile is_ws s))"
    by (metis hd_dropWhile)
  then have "dropWhile is_ws (rev (dropWhile is_ws (rev (dropWhile is_ws s))))
      = rev (dropWhile is_ws (rev (dropWhile is_ws s)))"
    by (rule dropWhile_rev_stable [of "dropWhile is_ws s" is_ws])
  then show ?thesis
    unfolding trim_def by (simp add: dropWhile_idem)
qed


lemma classify_part_text_nonblank:
  "classify_part event part = Inr (Some p) \<Longrightarrow> ptext p = Some t \<Longrightarrow> t \<noteq> [] \<and> trim t = t"
  by (auto simp add: classify_part_def trim_trim split: if_splits option.splits json.splits)

lemma parse_parts_text_nonblank:
  "parse_parts event parts = Inr p \<Longrightarrow> ptext p = Some t \<Longrightarrow> t \<noteq> [] \<and> trim t = t"
proof (induction parts)
  case Nil
  then show ?case by auto
next
  case (Cons part rest)
  then show ?case
    by (auto split: sum.splits option.splits dest: classify_part_text_nonblank)
qed

lemma parseEvent_text_nonblank:
  "parseEvent event = Inr p \<Longrightarrow> ptext p = Some t \<Longrightarrow> t \<noteq> [] \<and> trim t = t"
  by (auto simp add: parseEvent_def split: sum.splits dest: parse_parts_text_nonblank)

lemma ptext_iff: "(\<exists>t. ptext p = Some t) \<longleftrightarrow> (ptype p = TEXT \<or> ptype p = TEXT_PARTIAL)"
  by (cases p) simp_all

lemma ptype_not_ERROR: "ptype p \<noteq> ERROR"
  by (cases p) simp_all

lemma reduce_line_streamingText:
  "reduce_line line (evs, acc, s) = (evs', acc', s') \<Longrightarrow>
   streamingText s' = streamingText s \<or> (streamingText s' \<noteq> [] \<and> trim (streamingText s') = streamingText s')"
  by (auto simp add: reduce_line_def Let_def split: sse_line.splits sum.splits option.splits if_splits
      dest: parseEvent_text_nonblank)


lemma trim_eq_Nil_iff: "trim t = [] \<longleftrightarrow> (\<forall>c\<in>set t. is_ws c)"
proof
  assume "trim t = []"
  then have all: "\<forall>c\<in>set (dropWhile is_ws t). is_ws c"
    by (simp add: trim_def dropWhile_eq_Nil_conv)
  have "dropWhile is_ws t = []"
  proof (rule ccontr)
    assume ne: "dropWhile is_ws t \<noteq> []"
    then have "\<not> is_ws (hd (dropWhile is_ws t))" by (metis hd_dropWhile)
    moreover from ne have "hd (dropWhile is_ws t) \<in> set (dropWhile is_ws t)" by simp
    ultimately show False using all by blast
  qed
  then show "\<forall>c\<in>set t. is_ws c" by (simp add: dropWhile_eq_Nil_conv)
next
  assume "\<forall>c\<in>set t. is_ws c"
  then have "dropWhile is_ws t = []" by (simp add: dropWhile_eq_Nil_conv)
  then show "trim t = []"
    by (metis trim_def dropWhile.simps(1) rev.simps(1))
qed

lemma blank_part_undecided:
  assumes "\<not> carries_call part" and "\<not> carries_response part"
    and "\<forall>t. jsget part ''text'' = Some (JStr t) \<longrightarrow> (\<forall>c\<in>set t. is_ws c)"
  shows "\<not> decides part"
  using assms
  by (auto simp add: decides_def carries_text_def trim_eq_Nil_iff split: option.splits json.splits)

lemma find_decides_None: "find decides parts = None \<longleftrightarrow> (\<forall>part\<in>set parts. \<not> decides part)"
  by (auto simp add: find_None_iff)

lemma parse_parts_undecided:
  "JNull \<notin> set parts \<Longrightarrow> \<forall>part\<in>set parts. \<not> decides part \<Longrightarrow>
   parse_parts event parts = Inr (Thinking event)"
  by (induction parts) (auto simp add: classify_part_undecided)

section \<open>Classification precedence (C3)\<close>

text \<open>
  Claim C3, as amended. The claim reads the precedence function call > function response
  > non-empty text > thinking over the whole payload ("if any part carries a function
  call ..."). \<^verbatim>\<open>parseEvent\<close> applies it to one part at a time: for an event whose
  parts are an array (or a string) without a \<^verbatim>\<open>null\<close> element, the first part, in
  order, that carries a function call, a function response or non-empty text decides the
  type; inside that part a function call wins over a function response, which wins over
  text; text gives \<^verbatim>\<open>text_partial\<close> when the event is marked partial and \<^verbatim>\<open>text\<close>
  otherwise; when no part carries any of the three the type is \<^verbatim>\<open>thinking\<close>.
\<close>

theorem parseEvent_first_deciding_part:
  assumes "iterate (event_parts event) = Inr parts" and "JNull \<notin> set parts"
  shows "classify event =
           Inr (case find decides parts of
                  None \<Rightarrow> THINKING
                | Some part \<Rightarrow>
                    if carries_call part then FUNCTION_CALL
                    else if carries_response part then FUNCTION_RESPONSE
                    else if truthyv (jsget event ''partial'') then TEXT_PARTIAL else TEXT)"
proof -
  from parse_parts_find [OF assms(2), of event] obtain p where
    "parse_parts event parts = Inr p"
    "ptype p = (case find decides parts of
                  None \<Rightarrow> THINKING
                | Some part \<Rightarrow>
                    if carries_call part then FUNCTION_CALL
                    else if carries_response part then FUNCTION_RESPONSE
                    else if truthyv (jsget event ''partial'') then TEXT_PARTIAL else TEXT)"
    by blast
  with assms(1) show ?thesis by (simp add: classify_def parseEvent_def)
qed

lemmas example_defs =
  event_of_parts_def partial_event_of_parts_def text_part_def call_part_def response_part_def
  sofa_a_def

lemmas carries_defs = decides_def carries_call_def carries_response_def carries_text_def

theorem parseEvent_first_deciding_part_witness:
  "classify (partial_event_of_parts
      [text_part ''   '', text_part ''Searching'', call_part ''search_products''])
   = Inr TEXT_PARTIAL"
  using parseEvent_first_deciding_part
    [of "partial_event_of_parts
           [text_part ''   '', text_part ''Searching'', call_part ''search_products'']"
        "[text_part ''   '', text_part ''Searching'', call_part ''search_products'']"]
  by (simp add: example_defs event_parts_def carries_defs trim_def is_ws_def)

text \<open>
  The claim as stated fails on a payload whose first part carries text and whose second
  part carries a function call: a part carries a function call, and the event is
  classified \<^verbatim>\<open>text\<close>.
\<close>

theorem parseEvent_text_before_call_counterexample:
  "\<not> (list_ex carries_call [text_part ''Let me check'', call_part ''search_products'']
      \<longrightarrow> classify (event_of_parts [text_part ''Let me check'', call_part ''search_products''])
          = Inr FUNCTION_CALL)"
  by (simp add: example_defs carries_defs classify_def parseEvent_def event_parts_def
      classify_part_def trim_def is_ws_def)

section \<open>Identity: lemmas\<close>

lemma getPersistentUserId_authenticated:
  "params_get params ''customer_email'' = Some email \<Longrightarrow> email \<noteq> [] \<Longrightarrow>
   getPersistentUserId params rnd store
     = (hashEmail email, store(STORAGE_KEY_USER_ID \<mapsto> hashEmail email))"
  by (cases email) (simp_all add: getPersistentUserId_def Let_def)

lemma userIdRef_useSSEChat:
  "userIdRef (useSSEChat params rnd store) = fst (getPersistentUserId params rnd store)"
  by (simp add: useSSEChat_def split: prod.splits)

lemma hashEmail_example: "hashEmail ''a@b.c'' = ''user_1iiyk8''"
  by code_simp

section \<open>Identity of an authenticated customer (C6)\<close>

text \<open>
  Claim C6. When the launch parameters hold a (non-empty) \<^verbatim>\<open>customer_email\<close>, the
  resolved user id is \<^verbatim>\<open>hashEmail\<close> of it, that is, \<^verbatim>\<open>user_\<close> followed by the
  base-36 digits of the absolute value of a 32-bit hash of the characters of the email
  and of nothing else; the id is written to the store whatever was stored before; and two
  page loads with the same email resolve the same id whatever their other parameters,
  their random draw and their store.
\<close>

theorem getPersistentUserId_email:
  assumes "params_get params ''customer_email'' = Some email" and "email \<noteq> []"
    and "params_get params' ''customer_email'' = Some email"
  shows "fst (getPersistentUserId params rnd store) = hashEmail email
       \<and> hashEmail email = ''user_'' @ toString_radix 36 \<bar>hash_loop 0 email\<bar>
       \<and> snd (getPersistentUserId params rnd store) STORAGE_KEY_USER_ID = Some (hashEmail email)
       \<and> fst (getPersistentUserId params' rnd' store') = fst (getPersistentUserId params rnd store)
       \<and> userIdRef (useSSEChat params' rnd' store') = userIdRef (useSSEChat params rnd store)"
  using assms
  by (simp add: getPersistentUserId_authenticated userIdRef_useSSEChat hashEmail_def)

theorem getPersistentUserId_email_witness:
  "fst (getPersistentUserId [(''customer_email'', ''a@b.c'')] ''k3x9qa''
          [STORAGE_KEY_USER_ID \<mapsto> ''user_ab12cd'']) = ''user_1iiyk8''
   \<and> snd (getPersistentUserId [(''customer_email'', ''a@b.c'')] ''k3x9qa''
          [STORAGE_KEY_USER_ID \<mapsto> ''user_ab12cd'']) STORAGE_KEY_USER_ID = Some ''user_1iiyk8''
   \<and> fst (getPersistentUserId [(''host'', ''shop''), (''customer_email'', ''a@b.c'')] ''zz91aa''
          Map.empty) = ''user_1iiyk8''"
  using getPersistentUserId_email
    [of "[(''customer_email'', ''a@b.c'')]" "''a@b.c''"
        "[(''host'', ''shop''), (''customer_email'', ''a@b.c'')]"
        "''k3x9qa''" "[STORAGE_KEY_USER_ID \<mapsto> ''user_ab12cd'']" "''zz91aa''" Map.empty]
    hashEmail_example
  by (simp add: params_get_def)

lemma reduce_line_call:
  "parseEvent e = Inr p \<Longrightarrow> ptype p = FUNCTION_CALL \<Longrightarrow>
   reduce_line (Data e) (evs, acc, s) = (evs @ [p], acc, s\<lparr>liveEvents := liveEvents s @ [p]\<rparr>)"
  by (cases p) (simp_all add: reduce_line_def)

lemma reduce_line_text:
  "parseEvent e = Inr p \<Longrightarrow> ptype p = TEXT \<or> ptype p = TEXT_PARTIAL \<Longrightarrow> ptext p = Some t \<Longrightarrow>
   reduce_line (Data e) (evs, acc, s) = (evs @ [p], t, s\<lparr>streamingText := t\<rparr>)"
  by (cases p) (simp_all add: reduce_line_def)

lemma filter_products_no_null:
  "JNull \<notin> set ps \<Longrightarrow> filter_products ps = Inr (filter has_name_and_price ps)"
  by (induction ps) auto

lemma pushed_other: "ptype e \<noteq> FUNCTION_RESPONSE \<Longrightarrow> pushed e = []"
  by (simp add: pushed_def)

lemma pushed_response:
  "pushed (FunctionResponse n rsp r) =
     (case optchain rsp ''products'' of Some (JArr ps) \<Rightarrow> ps | _ \<Rightarrow> [])
     @ (case optchain rsp ''product'' of Some p \<Rightarrow> if truthy p then [p] else [] | None \<Rightarrow> [])"
  by (simp add: pushed_def)

lemma sendMessage_done_message:
  assumes "final_text allEvents acc = Some finalText" and "finalText \<noteq> AI_PAUSED"
    and "trim finalText \<noteq> []" and "extractProducts allEvents = Inr products"
  shows "sendMessage_done ap allEvents acc s =
     sendMessage_finally ap
       (s\<lparr>messages := messages s @
           [\<lparr>m_role = ''agent'', m_text = Some (JStr finalText), m_author = None,
             m_timestamp = None, m_products = Some products,
             m_toolCalls = Some (filter (\<lambda>e. ptype e = FUNCTION_CALL) allEvents),
             m_events = Some allEvents\<rparr>]\<rparr>)"
  using assms by (simp add: sendMessage_done_def)

lemma sendMessage_done_paused:
  assumes "final_text allEvents acc = Some finalText"
    and "finalText = AI_PAUSED \<or> trim finalText = []"
  shows "sendMessage_done ap allEvents acc s =
     sendMessage_finally ap (s\<lparr>aiPaused := True, status := human_mode\<rparr>)"
  using assms by (auto simp add: sendMessage_done_def)

lemma messages_sendMessage_finally [simp]:
  "messages (sendMessage_finally ap s) = messages s"
  by (simp add: sendMessage_finally_def)

section \<open>Reduction of a stream (C1)\<close>

text \<open>
  Claim C1, as amended. For every turn whose response consists of one function-call
  event, then three partial-text events, then one final text event whose text is not the
  reserved pause sentinel, the reduction appends exactly one agent Message: its text is
  the text of the final event, its tool calls are the function call, its events are the
  five events, and it has no products. The live feed gets exactly one entry, the function
  call. After each text event the streaming-text buffer is the text of that event alone:
  a text replaces the buffer, it is not appended to it.
\<close>

theorem stream_call_three_partials_final:
  assumes "parseEvent e0 = Inr c" and "ptype c = FUNCTION_CALL"
    and "parseEvent e1 = Inr p1" and "ptype p1 = TEXT_PARTIAL" and "ptext p1 = Some t1"
    and "parseEvent e2 = Inr p2" and "ptype p2 = TEXT_PARTIAL" and "ptext p2 = Some t2"
    and "parseEvent e3 = Inr p3" and "ptype p3 = TEXT_PARTIAL" and "ptext p3 = Some t3"
    and "parseEvent e4 = Inr f" and "ptype f = TEXT" and "ptext f = Some t"
    and "t \<noteq> AI_PAUSED"
  shows "messages (sendMessage_stream ap [Data e0, Data e1, Data e2, Data e3, Data e4] s)
           = messages s @
             [\<lparr>m_role = ''agent'', m_text = Some (JStr t), m_author = None,
               m_timestamp = None, m_products = Some [],
               m_toolCalls = Some [c], m_events = Some [c, p1, p2, p3, f]\<rparr>]
       \<and> liveEvents (snd (snd (reduce_lines [Data e0, Data e1, Data e2, Data e3, Data e4]
                                  ([], [], s)))) = liveEvents s @ [c]
       \<and> streamingText (snd (snd (reduce_lines [Data e0, Data e1] ([], [], s)))) = t1
       \<and> streamingText (snd (snd (reduce_lines [Data e0, Data e1, Data e2] ([], [], s)))) = t2
       \<and> streamingText (snd (snd (reduce_lines [Data e0, Data e1, Data e2, Data e3]
                                      ([], [], s)))) = t3
       \<and> streamingText (snd (snd (reduce_lines [Data e0, Data e1, Data e2, Data e3, Data e4]
                                      ([], [], s)))) = t"
proof -
  note steps = reduce_line_call [OF assms(1,2)]
    reduce_line_text [OF assms(3) disjI2 [OF assms(4)] assms(5)]
    reduce_line_text [OF assms(6) disjI2 [OF assms(7)] assms(8)]
    reduce_line_text [OF assms(9) disjI2 [OF assms(10)] assms(11)]
    reduce_line_text [OF assms(12) disjI1 [OF assms(13)] assms(14)]
  have nonblank: "trim t \<noteq> []"
    using parseEvent_text_nonblank [OF assms(12,14)] by simp
  have last: "final_text [c, p1, p2, p3, f] t = Some t"
    using assms by (simp add: final_text_def is_text_event_def)
  have prods: "extractProducts [c, p1, p2, p3, f] = Inr []"
    using assms by (simp add: extractProducts_def pushed_other)
  show ?thesis
    using assms(2,4,7,10,13)
    by (simp add: sendMessage_stream_def steps
        sendMessage_done_message [OF last assms(15) nonblank prods])
qed


lemma parseEvent_call_example:
  "parseEvent (event_of_parts (call_part n # rest))
   = Inr (FunctionCall (Some (JStr n)) (Some (JObj [])) (event_of_parts (call_part n # rest)))"
  by (simp add: parseEvent_def event_parts_def event_of_parts_def call_part_def classify_part_def)

lemma parseEvent_response_example:
  "parseEvent (event_of_parts (response_part n rsp # rest))
   = Inr (FunctionResponse (Some (JStr n)) (Some rsp)
            (event_of_parts (response_part n rsp # rest)))"
  by (simp add: parseEvent_def event_parts_def event_of_parts_def response_part_def
      classify_part_def)

lemma parseEvent_text_example:
  "trim t \<noteq> [] \<Longrightarrow>
   parseEvent (event_of_parts (text_part t # rest))
   = Inr (Text (trim t) (event_of_parts (text_part t # rest)))"
  by (simp add: parseEvent_def event_parts_def event_of_parts_def text_part_def classify_part_def)

lemma parseEvent_partial_example:
  "trim t \<noteq> [] \<Longrightarrow>
   parseEvent (partial_event_of_parts (text_part t # rest))
   = Inr (TextPartial (trim t) (partial_event_of_parts (text_part t # rest)))"
  by (simp add: parseEvent_def event_parts_def partial_event_of_parts_def text_part_def
      classify_part_def)

lemma trim_examples:
  "trim ''Here'' = ''Here''"
  "trim ''Here are'' = ''Here are''"
  "trim ''Here are some'' = ''Here are some''"
  "trim ''Here are some options'' = ''Here are some options''"
  "trim ''One'' = ''One''"
  "trim ''One moment'' = ''One moment''"
  "trim ''One moment please'' = ''One moment please''"
  "trim ''__AI_PAUSED__'' = ''__AI_PAUSED__''"
  "trim ''Hello'' = ''Hello''"
  "trim ''Show me black sofas'' = ''Show me black sofas''"
  by (simp_all add: trim_def is_ws_def)

lemma fresh_page_fields:
  "messages fresh_page = [WELCOME_MESSAGE]"
  "liveEvents fresh_page = []"
  "status fresh_page = idle"
  "streamingText fresh_page = []"
  "aiPaused fresh_page = False"
  "sessionIdRef fresh_page = None"
  "sessionCreatedRef fresh_page = False"
  "sessionRecoveryAttempted fresh_page = False"
  "network fresh_page = []"
  "pending fresh_page = []"
  "returned fresh_page = []"
  "userIdRef fresh_page = ''user_k3x9qa''"
  by (simp_all add: fresh_page_def useSSEChat_def getPersistentUserId_def params_get_def
      randomId_def getStoredSessionId_def STORAGE_KEY_USER_ID_def STORAGE_KEY_SESSION_ID_def
      Let_def)

theorem stream_call_three_partials_final_witness:
  "messages (sendMessage_stream False options_stream fresh_page)
     = [WELCOME_MESSAGE,
        \<lparr>m_role = ''agent'', m_text = Some (JStr ''Here are some options''), m_author = None,
          m_timestamp = None, m_products = Some [],
          m_toolCalls =
            Some [FunctionCall (Some (JStr ''search_products'')) (Some (JObj []))
                    (event_of_parts [call_part ''search_products''])],
          m_events =
            Some [FunctionCall (Some (JStr ''search_products'')) (Some (JObj []))
                    (event_of_parts [call_part ''search_products'']),
                  TextPartial ''Here'' (partial_event_of_parts [text_part ''Here'']),
                  TextPartial ''Here are'' (partial_event_of_parts [text_part ''Here are'']),
                  TextPartial ''Here are some''
                    (partial_event_of_parts [text_part ''Here are some'']),
                  Text ''Here are some options''
                    (event_of_parts [text_part ''Here are some options''])]\<rparr>]
   \<and> liveEvents (snd (snd (reduce_lines options_stream ([], [], fresh_page))))
     = [FunctionCall (Some (JStr ''search_products'')) (Some (JObj []))
          (event_of_parts [call_part ''search_products''])]
   \<and> streamingText (snd (snd (reduce_lines (take 3 options_stream) ([], [], fresh_page))))
     = ''Here are''"
  using stream_call_three_partials_final
    [of "event_of_parts [call_part ''search_products'']"
        "FunctionCall (Some (JStr ''search_products'')) (Some (JObj []))
           (event_of_parts [call_part ''search_products''])"
        "partial_event_of_parts [text_part ''Here'']"
        "TextPartial ''Here'' (partial_event_of_parts [text_part ''Here''])" "''Here''"
        "partial_event_of_parts [text_part ''Here are'']"
        "TextPartial ''Here are'' (partial_event_of_parts [text_part ''Here are''])"
        "''Here are''"
        "partial_event_of_parts [text_part ''Here are some'']"
        "TextPartial ''Here are some'' (partial_event_of_parts [text_part ''Here are some''])"
        "''Here are some''"
        "event_of_parts [text_part ''Here are some options'']"
        "Text ''Here are some options'' (event_of_parts [text_part ''Here are some options''])"
        "''Here are some options''" False fresh_page]
  by (simp add: parseEvent_call_example parseEvent_partial_example parseEvent_text_example
      trim_examples options_stream_def AI_PAUSED_def fresh_page_fields)

text \<open>
  The claim as stated fails when the final text event carries the pause sentinel: the
  stream is a function call, three partial texts and a final text, and no Message is
  appended.
\<close>

theorem stream_final_sentinel_counterexample:
  "map classify
     [event_of_parts [call_part ''handoff''],
      partial_event_of_parts [text_part ''One''],
      partial_event_of_parts [text_part ''One moment''],
      partial_event_of_parts [text_part ''One moment please''],
      event_of_parts [text_part ''__AI_PAUSED__'']]
   = [Inr FUNCTION_CALL, Inr TEXT_PARTIAL, Inr TEXT_PARTIAL, Inr TEXT_PARTIAL, Inr TEXT]
   \<and> paused_stream
     = map Data
         [event_of_parts [call_part ''handoff''],
          partial_event_of_parts [text_part ''One''],
          partial_event_of_parts [text_part ''One moment''],
          partial_event_of_parts [text_part ''One moment please''],
          event_of_parts [text_part ''__AI_PAUSED__'']]
   \<and> messages (sendMessage_stream False paused_stream fresh_page) = messages fresh_page"
  by (simp add: classify_def parseEvent_call_example parseEvent_partial_example
      parseEvent_text_example trim_examples paused_stream_def sendMessage_stream_def
      reduce_line_def sendMessage_done_def final_text_def is_text_event_def AI_PAUSED_def
      sendMessage_finally_def)

section \<open>A turn that ends in a pause (C2)\<close>

text \<open>
  Claim C2. For a turn whose candidate final text is empty, blank or the pause sentinel,
  the claim asks that no agent Message is appended, that the AI-paused flag is set, and
  that the status after the turn is \<^verbatim>\<open>human_mode\<close>. The first two hold. The status
  does not: \<^verbatim>\<open>sendMessage\<close> sets \<^verbatim>\<open>human_mode\<close> and returns, and its \<^verbatim>\<open>finally\<close>
  block then sets the status from the \<^verbatim>\<open>aiPaused\<close> of its closure, which is the value
  the flag had when the turn was sent. This theorem states what the code does: the turn
  ends in \<^verbatim>\<open>human_mode\<close> when the AI was already paused at the send, and in
  \<^verbatim>\<open>idle\<close> otherwise.
\<close>

theorem sendMessage_pause_status:
  assumes "final_text allEvents acc = Some finalText"
    and "finalText = AI_PAUSED \<or> trim finalText = []"
  shows "messages (sendMessage_done aiPaused0 allEvents acc s) = messages s
       \<and> aiPaused (sendMessage_done aiPaused0 allEvents acc s) = True
       \<and> status (sendMessage_done aiPaused0 allEvents acc s)
           = (if aiPaused0 then human_mode else idle)"
  by (simp add: sendMessage_done_paused [OF assms] sendMessage_finally_def)

theorem sendMessage_pause_status_witness:
  "status (sendMessage_stream False
             [Data (event_of_parts [text_part ''__AI_PAUSED__''])] fresh_page) = idle
   \<and> aiPaused (sendMessage_stream False
             [Data (event_of_parts [text_part ''__AI_PAUSED__''])] fresh_page) = True
   \<and> messages (sendMessage_stream False
             [Data (event_of_parts [text_part ''__AI_PAUSED__''])] fresh_page)
     = messages fresh_page"
  using sendMessage_pause_status
    [of "[Text ''__AI_PAUSED__'' (event_of_parts [text_part ''__AI_PAUSED__''])]"
        "''__AI_PAUSED__''" "''__AI_PAUSED__''" False
        "fresh_page\<lparr>status := streaming, streamingText := ''__AI_PAUSED__''\<rparr>"]
  by (simp add: sendMessage_stream_def reduce_line_def parseEvent_text_example trim_examples
      final_text_def is_text_event_def AI_PAUSED_def)

section \<open>The message list: lemmas\<close>

lemma messages_sendMessage_catch:
  "prefix (messages s) (messages (sendMessage_catch ap e s))"
  by (simp add: sendMessage_catch_def)

lemma messages_settle: "prefix (messages s) (messages (settle c r s))"
  by (cases "(c, r, s)" rule: settle.cases) (simp_all add: messages_sendMessage_catch)

lemma messages_ensureSession_create [simp]:
  "messages (ensureSession_create c s) = messages s"
  by (simp add: ensureSession_create_def)

lemma messages_ensureSession: "prefix (messages s) (messages (ensureSession c s))"
  by (simp add: ensureSession_def messages_settle)

lemma messages_startListening [simp]:
  "messages (startListening sid uid s) = messages s"
  by (simp add: startListening_def)

lemma messages_tryRecoverSession:
  "messages (snd (tryRecoverSession r s)) = messages s
   \<or> (\<exists>ms. messages (snd (tryRecoverSession r s)) = WELCOME_MESSAGE # ms)"
  by (simp add: tryRecoverSession_def Let_def split: response.splits option.splits sum.splits)

lemma messages_ensureSession_recovered:
  "prefix (messages s) (messages (ensureSession_recovered c r s))
   \<or> (\<exists>ms. messages (ensureSession_recovered c r s) = WELCOME_MESSAGE # ms)"
proof -
  obtain v s1 where t: "tryRecoverSession r s = (v, s1)"
    by (cases "tryRecoverSession r s") auto
  have s1: "messages s1 = messages s \<or> (\<exists>ms. messages s1 = WELCOME_MESSAGE # ms)"
    using messages_tryRecoverSession [of r s] by (simp add: t)
  have "prefix (messages s1) (messages (ensureSession_recovered c r s))"
  proof (cases "truthyv v")
    case True
    let ?s3 = "(startListening (sessionIdRef s1) (userIdRef s1)
                  (s1\<lparr>sessionCreatedRef := True\<rparr>))\<lparr>status := idle\<rparr>"
    have "prefix (messages ?s3) (messages (settle c (Inr (sessionIdRef ?s3)) ?s3))"
      by (rule messages_settle)
    with True show ?thesis by (simp add: ensureSession_recovered_def t Let_def)
  next
    case False
    then show ?thesis by (simp add: ensureSession_recovered_def t)
  qed
  with s1 show ?thesis by (auto simp add: prefix_def)
qed

lemma messages_ensureSession_created:
  "prefix (messages s) (messages (ensureSession_created c r s))"
proof (cases r)
  case (Ok session_id)
  have "prefix
      (messages (startListening session_id (userIdRef s)
         (s\<lparr>sessionIdRef := session_id, sessionCreatedRef := True,
             localStorage := storeSessionId session_id (localStorage s)\<rparr>)))
      (messages (settle c (Inr session_id)
         (startListening session_id (userIdRef s)
           (s\<lparr>sessionIdRef := session_id, sessionCreatedRef := True,
               localStorage := storeSessionId session_id (localStorage s)\<rparr>))))"
    by (rule messages_settle)
  with Ok show ?thesis by (simp add: ensureSession_created_def Let_def)
qed (simp_all add: ensureSession_created_def messages_settle)

lemma messages_reduce_line [simp]:
  "messages (snd (snd (reduce_line line (evs, acc, s)))) = messages s"
  by (simp add: reduce_line_def Let_def split: sse_line.splits sum.splits option.splits)

lemma messages_reduce_lines [simp]:
  "messages (snd (snd (reduce_lines lines st))) = messages (snd (snd st))"
proof (induction lines arbitrary: st)
  case Nil
  show ?case by simp
next
  case (Cons line lines)
  obtain evs acc s where st: "st = (evs, acc, s)" by (cases st) auto
  show ?case using messages_reduce_line [of line evs acc s] by (simp add: Cons.IH st)
qed

lemma messages_sendMessage_done:
  "prefix (messages s) (messages (sendMessage_done ap evs acc s))"
  by (simp add: sendMessage_done_def messages_sendMessage_catch
      split: option.splits sum.splits)

lemma messages_sendMessage: "prefix (messages s) (messages (sendMessage text s))"
proof (cases "trim text = [] \<or> (status s \<noteq> idle \<and> status s \<noteq> human_mode)")
  case True
  then show ?thesis by (simp add: sendMessage_def)
next
  case False
  let ?s1 = "s\<lparr>messages := messages s @ [plain_message ''user'' (Some (JStr (trim text)))],
                status := (if aiPaused s then human_mode else loading),
                liveEvents := [], streamingText := []\<rparr>"
  have "prefix (messages ?s1) (messages (ensureSession (Turn (aiPaused s) (trim text)) ?s1))"
    by (rule messages_ensureSession)
  moreover have "prefix (messages s) (messages ?s1)" by simp
  ultimately have "prefix (messages s) (messages (ensureSession (Turn (aiPaused s) (trim text)) ?s1))"
    by (rule prefix_order.trans [rotated])
  with False show ?thesis by (simp add: sendMessage_def)
qed

lemma messages_onmessage: "prefix (messages s) (messages (onmessage now d s))"
  by (simp add: onmessage_def Let_def split: inbound.splits)

lemma messages_mountEffect: "prefix (messages s) (messages (mountEffect s))"
  by (simp add: mountEffect_def messages_ensureSession)

lemma messages_reset [simp]: "messages (reset s) = [WELCOME_MESSAGE]"
  by (simp add: reset_def)

lemma resume_AwaitRead_ReadChunk:
  "reduce_lines lines (evs, acc, s) = (evs', acc', s1) \<Longrightarrow>
   resume (AwaitRead ap evs acc) (ReadChunk lines) s
     = Some (s1\<lparr>pending := pending s1 @ [AwaitRead ap evs' acc']\<rparr>)"
  by simp

lemma messages_connection:
  "messages (case r of
       Rejected e \<Rightarrow> sendMessage_catch ap e s
     | NotOk code \<Rightarrow> sendMessage_catch ap (Error (''API error '' @ toString_radix 10 code)) s
     | BadBody e \<Rightarrow> sendMessage_catch ap e s
     | Ok u \<Rightarrow> s\<lparr>status := streaming, pending := pending s @ [AwaitRead ap [] []]\<rparr>)
   = messages (case r of
       Rejected e \<Rightarrow> sendMessage_catch ap e s
     | NotOk code \<Rightarrow> sendMessage_catch ap (Error (''API error '' @ toString_radix 10 code)) s
     | BadBody e \<Rightarrow> sendMessage_catch ap e s
     | Ok u \<Rightarrow> s)"
  by (cases r) simp_all

lemma messages_resume:
  assumes "resume t a s = Some s'"
  shows "prefix (messages s) (messages s')
   \<or> (\<exists>c r ms. t = AwaitRecover c \<and> a = Lookup r \<and> messages s' = WELCOME_MESSAGE # ms)"
proof (cases t)
  case (AwaitRecover c)
  with assms obtain r where "a = Lookup r" and "s' = ensureSession_recovered c r s"
    by (cases a) simp_all
  with AwaitRecover messages_ensureSession_recovered [of s c r] show ?thesis by blast
next
  case (AwaitCreate c)
  with assms obtain r where "a = Creation r" and "s' = ensureSession_created c r s"
    by (cases a) simp_all
  with messages_ensureSession_created [of s c r] show ?thesis by blast
next
  case (AwaitRunSse ap)
  with assms obtain r where a: "a = Connection r" by (cases a) simp_all
  have "prefix (messages s) (messages s')"
  proof (cases r)
    case (Rejected e)
    with a AwaitRunSse assms have "s' = sendMessage_catch ap e s" by simp
    then show ?thesis by (simp only: messages_sendMessage_catch)
  next
    case (NotOk code)
    with a AwaitRunSse assms
    have "s' = sendMessage_catch ap (Error (''API error '' @ toString_radix 10 code)) s"
      by simp
    then show ?thesis by (simp only: messages_sendMessage_catch)
  next
    case (BadBody e)
    with a AwaitRunSse assms have "s' = sendMessage_catch ap e s" by simp
    then show ?thesis by (simp only: messages_sendMessage_catch)
  next
    case (Ok u)
    with a AwaitRunSse assms
    have "s' = s\<lparr>status := streaming, pending := pending s @ [AwaitRead ap [] []]\<rparr>"
      by simp
    then show ?thesis by simp
  qed
  then show ?thesis ..
next
  case (AwaitRead ap evs acc)
  have "prefix (messages s) (messages s')"
  proof (cases a)
    case (ReadChunk lines)
    obtain evs' acc' s1 where r: "reduce_lines lines (evs, acc, s) = (evs', acc', s1)"
      using prod_cases3 by blast
    have "messages s1 = messages s"
      using messages_reduce_lines [of lines "(evs, acc, s)"] by (simp only: r snd_conv)
    moreover have "s' = s1\<lparr>pending := pending s1 @ [AwaitRead ap evs' acc']\<rparr>"
      using assms resume_AwaitRead_ReadChunk [OF r, of ap]
      by (simp only: AwaitRead ReadChunk option.inject)
    ultimately show ?thesis by simp
  next
    case ReadDone
    with AwaitRead assms have "s' = sendMessage_done ap evs acc s" by simp
    then show ?thesis by (simp only: messages_sendMessage_done)
  next
    case (ReadRejected e)
    with AwaitRead assms have "s' = sendMessage_catch ap e s" by simp
    then show ?thesis by (simp only: messages_sendMessage_catch)
  next
    case (Lookup r)
    with AwaitRead assms show ?thesis by simp
  next
    case (Creation r)
    with AwaitRead assms show ?thesis by simp
  next
    case (Connection r)
    with AwaitRead assms show ?thesis by simp
  qed
  then show ?thesis ..
qed

lemma messages_step:
  "prefix (messages s) (messages (step a s))
   \<or> (a = Reset \<and> messages (step a s) = [WELCOME_MESSAGE])
   \<or> (\<exists>i r ms. a = Settle i (Lookup r) \<and> messages (step a s) = WELCOME_MESSAGE # ms)"
proof (cases a)
  case CallEnsureSession
  then show ?thesis by (simp add: messages_ensureSession)
next
  case MountEffect
  then show ?thesis by (simp add: messages_mountEffect)
next
  case (SendMessage msg)
  then show ?thesis by (simp add: messages_sendMessage)
next
  case (Settle i ans)
  show ?thesis
  proof (cases "i < length (pending s)")
    case False
    with Settle show ?thesis by simp
  next
    case True
    show ?thesis
    proof (cases "resume (pending s ! i) ans (s\<lparr>pending := remove_nth i (pending s)\<rparr>)")
      case None
      with Settle True show ?thesis by simp
    next
      case (Some s')
      from messages_resume [OF Some] Settle True Some show ?thesis by (simp add: remove_nth_def) blast
    qed
  qed
next
  case (Inbound now d)
  then show ?thesis by (simp add: messages_onmessage)
next
  case Reset
  then show ?thesis by simp
qed

lemma welcome_first_step: "welcome_first s \<Longrightarrow> welcome_first (step a s)"
  using messages_step [of s a]
  by (auto simp add: welcome_first_def prefix_def split: list.splits)

lemma welcome_first_run: "welcome_first s \<Longrightarrow> welcome_first (run acts s)"
  by (induction acts arbitrary: s) (simp_all add: welcome_first_step)

lemma welcome_first_useSSEChat: "welcome_first (useSSEChat params rnd store)"
  by (simp add: welcome_first_def useSSEChat_def split: prod.splits)

section \<open>The recovery latch: lemmas\<close>

lemma same_session_refl [simp]: "same_session s s"
  by (simp add: same_session_def)

lemma same_session_trans: "same_session s s1 \<Longrightarrow> same_session s1 s2 \<Longrightarrow> same_session s s2"
  by (simp add: same_session_def)

lemma recovery_inv_same: "same_session s s' \<Longrightarrow> recovery_inv s \<Longrightarrow> recovery_inv s'"
  by (simp add: same_session_def recovery_inv_def latched_def)

lemma recovery_inv_latched:
  "recovery_inv s \<Longrightarrow> recovery_fetches s' = recovery_fetches s \<Longrightarrow> latched s' \<Longrightarrow>
   recovery_inv s'"
  by (auto simp add: recovery_inv_def)

lemma same_session_sendMessage_finally [simp]: "same_session s (sendMessage_finally ap s)"
  by (simp add: same_session_def sendMessage_finally_def recovery_fetches_def)

lemma same_session_sendMessage_catch [simp]: "same_session s (sendMessage_catch ap e s)"
  by (simp add: same_session_def sendMessage_catch_def sendMessage_finally_def
      recovery_fetches_def)

lemma same_session_settle [simp]: "same_session s (settle c r s)"
proof (cases "(c, r, s)" rule: settle.cases)
  case (3 ap msg e s0)
  then show ?thesis by simp
qed (simp_all add: same_session_def recovery_fetches_def)

lemma same_session_reduce_line:
  "same_session s (snd (snd (reduce_line line (evs, acc, s))))"
  by (simp add: reduce_line_def Let_def same_session_def recovery_fetches_def
      split: sse_line.splits sum.splits option.splits)

lemma same_session_reduce_lines:
  "same_session (snd (snd st)) (snd (snd (reduce_lines lines st)))"
proof (induction lines arbitrary: st)
  case Nil
  show ?case by simp
next
  case (Cons line lines)
  obtain evs acc s where st: "st = (evs, acc, s)" using prod_cases3 by blast
  have "same_session s (snd (snd (reduce_line line (evs, acc, s))))"
    by (rule same_session_reduce_line)
  moreover have "same_session (snd (snd (reduce_line line (evs, acc, s))))
      (snd (snd (reduce_lines lines (reduce_line line (evs, acc, s)))))"
    by (rule Cons.IH)
  ultimately show ?case by (simp add: st same_session_trans)
qed

lemma same_session_sendMessage_done [simp]:
  "same_session s (sendMessage_done ap evs acc s)"
proof -
  have upd: "\<And>m. same_session s (sendMessage_finally ap (s\<lparr>messages := m\<rparr>))"
    by (simp add: same_session_def sendMessage_finally_def recovery_fetches_def)
  have paused: "same_session s (sendMessage_finally ap (s\<lparr>aiPaused := True, status := human_mode\<rparr>))"
    by (simp add: same_session_def sendMessage_finally_def recovery_fetches_def)
  show ?thesis
    by (simp add: sendMessage_done_def upd paused split: option.splits sum.splits)
qed

lemma same_session_onmessage [simp]: "same_session s (onmessage now d s)"
  by (simp add: onmessage_def Let_def same_session_def recovery_fetches_def
      split: inbound.splits)

lemma same_session_tryRecoverSession [simp]:
  "same_session s (snd (tryRecoverSession r s))"
  by (simp add: tryRecoverSession_def Let_def same_session_def recovery_fetches_def
      split: response.splits option.splits sum.splits)

lemma recovery_inv_settle: "recovery_inv s \<Longrightarrow> recovery_inv (settle c r s)"
  by (rule recovery_inv_same [OF same_session_settle])

lemma recovery_inv_ensureSession_create:
  "recovery_inv s \<Longrightarrow> recovery_inv (ensureSession_create c s)"
  by (rule recovery_inv_latched [of s])
    (simp_all add: ensureSession_create_def recovery_fetches_def latched_def)

lemma recovery_inv_ensureSession: "recovery_inv s \<Longrightarrow> recovery_inv (ensureSession c s)"
proof -
  assume inv: "recovery_inv s"
  consider (established) "sessionCreatedRef s \<and> truthys (sessionIdRef s)"
    | (recover) "\<not> (sessionCreatedRef s \<and> truthys (sessionIdRef s))"
        "\<not> sessionRecoveryAttempted s \<and> truthys (sessionIdRef s)"
    | (create) "\<not> (sessionCreatedRef s \<and> truthys (sessionIdRef s))"
        "\<not> (\<not> sessionRecoveryAttempted s \<and> truthys (sessionIdRef s))"
    by blast
  then show ?thesis
  proof cases
    case established
    then have "ensureSession c s = settle c (Inr (sessionIdRef s)) s"
      by (simp add: ensureSession_def)
    with inv show ?thesis by (simp add: recovery_inv_settle)
  next
    case recover
    then have "\<not> latched s" by (auto simp add: latched_def)
    with inv have "recovery_fetches s = 0" by (simp add: recovery_inv_def)
    with recover show ?thesis
      by (simp add: ensureSession_def recovery_inv_def recovery_fetches_def latched_def)
  next
    case create
    then have "ensureSession c s = ensureSession_create c s"
      by (auto simp add: ensureSession_def)
    with inv show ?thesis by (simp add: recovery_inv_ensureSession_create)
  qed
qed

lemma recovery_inv_update:
  "recovery_inv (s\<lparr>status := st\<rparr>) = recovery_inv s"
  "recovery_inv (s\<lparr>pending := p\<rparr>) = recovery_inv s"
  "recovery_inv (s\<lparr>messages := m\<rparr>) = recovery_inv s"
  "recovery_inv (s\<lparr>liveEvents := l\<rparr>) = recovery_inv s"
  "recovery_inv (s\<lparr>streamingText := t\<rparr>) = recovery_inv s"
  "recovery_inv (s\<lparr>localStorage := ls\<rparr>) = recovery_inv s"
  by (simp_all add: recovery_inv_def recovery_fetches_def latched_def)

lemma recovery_inv_ensureSession_recovered:
  assumes "recovery_inv s"
  shows "recovery_inv (ensureSession_recovered c r s)"
proof -
  obtain v s1 where t: "tryRecoverSession r s = (v, s1)"
    by (cases "tryRecoverSession r s") auto
  have "same_session s s1" using same_session_tryRecoverSession [of s r] by (simp add: t)
  then have inv1: "recovery_inv s1" using assms by (rule recovery_inv_same)
  show ?thesis
  proof (cases "truthyv v")
    case True
    let ?s3 = "(startListening (sessionIdRef s1) (userIdRef s1)
                  (s1\<lparr>sessionCreatedRef := True\<rparr>))\<lparr>status := idle\<rparr>"
    have "recovery_inv ?s3"
      by (rule recovery_inv_latched [OF inv1])
        (simp_all add: startListening_def recovery_fetches_def latched_def)
    then have "recovery_inv (settle c (Inr (sessionIdRef ?s3)) ?s3)"
      by (rule recovery_inv_settle)
    with True show ?thesis by (simp add: ensureSession_recovered_def t Let_def)
  next
    case False
    let ?s2 = "s1\<lparr>sessionIdRef := None,
                   localStorage := clearStoredSession (localStorage s1), status := idle\<rparr>"
    have "recovery_inv ?s2"
      by (rule recovery_inv_latched [OF inv1]) (simp_all add: recovery_fetches_def latched_def)
    then have "recovery_inv (ensureSession_create c ?s2)"
      by (rule recovery_inv_ensureSession_create)
    with False show ?thesis by (simp add: ensureSession_recovered_def t)
  qed
qed

lemma recovery_inv_ensureSession_created:
  assumes "recovery_inv s"
  shows "recovery_inv (ensureSession_created c r s)"
proof (cases r)
  case (Ok session_id)
  let ?s2 = "startListening session_id (userIdRef s)
               (s\<lparr>sessionIdRef := session_id, sessionCreatedRef := True,
                   localStorage := storeSessionId session_id (localStorage s)\<rparr>)"
  have "recovery_inv ?s2"
    by (rule recovery_inv_latched [OF assms])
      (simp_all add: startListening_def recovery_fetches_def latched_def)
  then have "recovery_inv (settle c (Inr session_id) ?s2)"
    by (rule recovery_inv_settle)
  with Ok show ?thesis by (simp add: ensureSession_created_def Let_def)
qed (simp_all add: ensureSession_created_def recovery_inv_settle assms)

lemma recovery_inv_sendMessage: "recovery_inv s \<Longrightarrow> recovery_inv (sendMessage msg s)"
  by (simp add: sendMessage_def recovery_inv_ensureSession recovery_inv_update)

lemma recovery_inv_mountEffect: "recovery_inv s \<Longrightarrow> recovery_inv (mountEffect s)"
  by (simp add: mountEffect_def recovery_inv_ensureSession)

lemma recovery_inv_reset: "recovery_inv s \<Longrightarrow> recovery_inv (reset s)"
  by (rule recovery_inv_latched [of s])
    (simp_all add: reset_def recovery_fetches_def latched_def)

lemma recovery_inv_reduce_lines:
  assumes "recovery_inv s" and "reduce_lines lines (evs, acc, s) = (evs', acc', s1)"
  shows "recovery_inv s1"
proof -
  have "same_session s s1"
    using same_session_reduce_lines [of "(evs, acc, s)" lines] by (simp only: assms(2) snd_conv)
  then show ?thesis using assms(1) by (rule recovery_inv_same)
qed

lemma recovery_inv_resume:
  assumes "recovery_inv s" and "resume t a s = Some s'"
  shows "recovery_inv s'"
proof (cases t)
  case (AwaitRecover c)
  with assms(2) obtain r where "a = Lookup r" and "s' = ensureSession_recovered c r s"
    by (cases a) simp_all
  with assms(1) show ?thesis by (simp add: recovery_inv_ensureSession_recovered)
next
  case (AwaitCreate c)
  with assms(2) obtain r where "a = Creation r" and "s' = ensureSession_created c r s"
    by (cases a) simp_all
  with assms(1) show ?thesis by (simp add: recovery_inv_ensureSession_created)
next
  case (AwaitRunSse ap)
  with assms(2) obtain r where a: "a = Connection r" by (cases a) simp_all
  show ?thesis
  proof (cases r)
    case (Rejected e)
    with a AwaitRunSse assms(2) have "s' = sendMessage_catch ap e s" by simp
    with assms(1) show ?thesis by (simp add: recovery_inv_same [OF same_session_sendMessage_catch])
  next
    case (NotOk code)
    with a AwaitRunSse assms(2)
    have "s' = sendMessage_catch ap (Error (''API error '' @ toString_radix 10 code)) s"
      by simp
    with assms(1) show ?thesis by (simp add: recovery_inv_same [OF same_session_sendMessage_catch])
  next
    case (BadBody e)
    with a AwaitRunSse assms(2) have "s' = sendMessage_catch ap e s" by simp
    with assms(1) show ?thesis by (simp add: recovery_inv_same [OF same_session_sendMessage_catch])
  next
    case (Ok u)
    with a AwaitRunSse assms(2)
    have "s' = s\<lparr>status := streaming, pending := pending s @ [AwaitRead ap [] []]\<rparr>"
      by simp
    with assms(1) show ?thesis by (simp add: recovery_inv_update)
  qed
next
  case (AwaitRead ap evs acc)
  show ?thesis
  proof (cases a)
    case (ReadChunk lines)
    obtain evs' acc' s1 where r: "reduce_lines lines (evs, acc, s) = (evs', acc', s1)"
      using prod_cases3 by blast
    have "recovery_inv s1" using assms(1) r by (rule recovery_inv_reduce_lines)
    moreover have "s' = s1\<lparr>pending := pending s1 @ [AwaitRead ap evs' acc']\<rparr>"
      using assms(2) resume_AwaitRead_ReadChunk [OF r, of ap]
      by (simp only: AwaitRead ReadChunk option.inject)
    ultimately show ?thesis by (simp add: recovery_inv_update)
  next
    case ReadDone
    with AwaitRead assms(2) have "s' = sendMessage_done ap evs acc s" by simp
    with assms(1) show ?thesis by (simp add: recovery_inv_same [OF same_session_sendMessage_done])
  next
    case (ReadRejected e)
    with AwaitRead assms(2) have "s' = sendMessage_catch ap e s" by simp
    with assms(1) show ?thesis by (simp add: recovery_inv_same [OF same_session_sendMessage_catch])
  next
    case (Lookup r)
    with AwaitRead assms(2) show ?thesis by simp
  next
    case (Creation r)
    with AwaitRead assms(2) show ?thesis by simp
  next
    case (Connection r)
    with AwaitRead assms(2) show ?thesis by simp
  qed
qed

lemma recovery_inv_step: "recovery_inv s \<Longrightarrow> recovery_inv (step a s)"
proof (cases a)
  case CallEnsureSession
  assume "recovery_inv s"
  with CallEnsureSession show ?thesis by (simp add: recovery_inv_ensureSession)
next
  case MountEffect
  assume "recovery_inv s"
  with MountEffect show ?thesis by (simp add: recovery_inv_mountEffect)
next
  case (SendMessage msg)
  assume "recovery_inv s"
  with SendMessage show ?thesis by (simp add: recovery_inv_sendMessage)
next
  case (Settle i ans)
  assume inv: "recovery_inv s"
  show ?thesis
  proof (cases "i < length (pending s)")
    case False
    with Settle inv show ?thesis by simp
  next
    case True
    show ?thesis
    proof (cases "resume (pending s ! i) ans (s\<lparr>pending := remove_nth i (pending s)\<rparr>)")
      case None
      with Settle True inv show ?thesis by simp
    next
      case (Some s')
      from inv have "recovery_inv (s\<lparr>pending := remove_nth i (pending s)\<rparr>)"
        by (simp add: recovery_inv_update)
      then have "recovery_inv s'" using Some by (rule recovery_inv_resume)
      with Settle True Some show ?thesis by simp
    qed
  qed
next
  case (Inbound now d)
  assume "recovery_inv s"
  with Inbound show ?thesis by (simp add: recovery_inv_same [OF same_session_onmessage])
next
  case Reset
  assume "recovery_inv s"
  with Reset show ?thesis by (simp add: recovery_inv_reset)
qed

lemma recovery_inv_run: "recovery_inv s \<Longrightarrow> recovery_inv (run acts s)"
  by (induction acts arbitrary: s) (simp_all add: recovery_inv_step)

lemma useSSEChat_fields:
  "messages (useSSEChat params rnd store) = [WELCOME_MESSAGE]"
  "network (useSSEChat params rnd store) = []"
  "pending (useSSEChat params rnd store) = []"
  "returned (useSSEChat params rnd store) = []"
  "status (useSSEChat params rnd store) = idle"
  "sessionCreatedRef (useSSEChat params rnd store) = False"
  "sessionRecoveryAttempted (useSSEChat params rnd store) = False"
  "sessionIdRef (useSSEChat params rnd store) = store STORAGE_KEY_SESSION_ID"
  "localStorage (useSSEChat params rnd store) STORAGE_KEY_SESSION_ID = store STORAGE_KEY_SESSION_ID"
  by (simp_all add: useSSEChat_def getPersistentUserId_def getStoredSessionId_def Let_def
      STORAGE_KEY_USER_ID_def STORAGE_KEY_SESSION_ID_def
      split: prod.splits option.splits list.splits)

lemma recovery_inv_useSSEChat: "recovery_inv (useSSEChat params rnd store)"
  by (simp add: recovery_inv_def recovery_fetches_def useSSEChat_fields)

lemma two_calls_one_lookup:
  assumes "\<not> sessionCreatedRef s" and "\<not> sessionRecoveryAttempted s"
    and "truthys (sessionIdRef s)"
  shows "recovery_fetches (run [CallEnsureSession, CallEnsureSession] s)
         = Suc (recovery_fetches s)"
  using assms
  by (simp add: ensureSession_def ensureSession_create_def recovery_fetches_def)

section \<open>Recovery is attempted once (C4)\<close>

text \<open>
  Claim C4. On each page load at most one session-recovery fetch is ever made, whatever
  the page does afterwards: calls of \<^verbatim>\<open>ensureSession\<close> (direct, from the effect on
  mount, from \<^verbatim>\<open>sendMessage\<close>), answers of the network in any order, inbound messages,
  resets. Two calls in a row while a stored session id exists make exactly one.
\<close>

theorem recovery_fetch_at_most_once:
  "recovery_fetches (run acts (useSSEChat params rnd store)) \<le> 1
   \<and> (truthys (store STORAGE_KEY_SESSION_ID) \<longrightarrow>
        recovery_fetches (run [CallEnsureSession, CallEnsureSession]
                            (useSSEChat params rnd store)) = 1)"
proof
  have "recovery_inv (run acts (useSSEChat params rnd store))"
    by (rule recovery_inv_run [OF recovery_inv_useSSEChat])
  then show "recovery_fetches (run acts (useSSEChat params rnd store)) \<le> 1"
    by (auto simp add: recovery_inv_def)
next
  show "truthys (store STORAGE_KEY_SESSION_ID) \<longrightarrow>
        recovery_fetches (run [CallEnsureSession, CallEnsureSession]
                            (useSSEChat params rnd store)) = 1"
  proof
    assume "truthys (store STORAGE_KEY_SESSION_ID)"
    then have "recovery_fetches (run [CallEnsureSession, CallEnsureSession]
                 (useSSEChat params rnd store))
               = Suc (recovery_fetches (useSSEChat params rnd store))"
      by (intro two_calls_one_lookup) (simp_all add: useSSEChat_fields)
    then show "recovery_fetches (run [CallEnsureSession, CallEnsureSession]
                 (useSSEChat params rnd store)) = 1"
      by (simp add: recovery_fetches_def useSSEChat_fields)
  qed
qed

lemma returning_page_fields:
  "messages returning_page = [WELCOME_MESSAGE]"
  "status returning_page = idle"
  "sessionIdRef returning_page = Some ''sess-1''"
  "sessionCreatedRef returning_page = False"
  "sessionRecoveryAttempted returning_page = False"
  "network returning_page = []"
  "pending returning_page = []"
  "returned returning_page = []"
  "userIdRef returning_page = ''user_ab12cd''"
  "localStorage returning_page STORAGE_KEY_SESSION_ID = Some ''sess-1''"
  by (simp_all add: returning_page_def useSSEChat_def getPersistentUserId_def params_get_def
      getStoredSessionId_def STORAGE_KEY_USER_ID_def STORAGE_KEY_SESSION_ID_def Let_def)

theorem recovery_fetch_at_most_once_witness:
  "truthys ([STORAGE_KEY_USER_ID \<mapsto> ''user_ab12cd'', STORAGE_KEY_SESSION_ID \<mapsto> ''sess-1'']
              STORAGE_KEY_SESSION_ID)
   \<and> recovery_fetches (run [CallEnsureSession, CallEnsureSession] returning_page) = 1
   \<and> network (run [CallEnsureSession, CallEnsureSession] returning_page)
     = [GetSession ''user_ab12cd'' ''sess-1'', PostSession ''user_ab12cd'']"
  using recovery_fetch_at_most_once
    [of "[]" "[]" "''k3x9qa''"
        "[STORAGE_KEY_USER_ID \<mapsto> ''user_ab12cd'', STORAGE_KEY_SESSION_ID \<mapsto> ''sess-1'']"]
  by (simp add: returning_page_def [symmetric] returning_page_fields ensureSession_def
      ensureSession_create_def)

section \<open>The welcome message stays first (C9)\<close>

text \<open>
  Claim C9. In every state the page can reach, the message list is non-empty and starts
  with the welcome message. The first render, \<^verbatim>\<open>reset\<close> and the recovery of a history
  put the welcome message at position 0; every other step leaves the list as it is or
  appends to it.
\<close>

theorem welcome_message_first:
  "welcome_first (run acts (useSSEChat params rnd store))
   \<and> messages (useSSEChat params rnd store) = [WELCOME_MESSAGE]
   \<and> (prefix (messages s) (messages (step a s))
      \<or> (a = Reset \<and> messages (step a s) = [WELCOME_MESSAGE])
      \<or> (\<exists>i r ms. a = Settle i (Lookup r) \<and> messages (step a s) = WELCOME_MESSAGE # ms))"
  using welcome_first_run [OF welcome_first_useSSEChat] messages_step [of s a]
  by (simp add: useSSEChat_fields)

section \<open>Session negotiation: lemmas\<close>

lemma tryRecoverSession_value:
  "fst (tryRecoverSession r s) = fst (tryRecoverSession r s')"
  by (simp add: tryRecoverSession_def Let_def split: response.splits option.splits sum.splits)

lemma tryRecoverSession_falsy:
  "\<not> truthyv (fst (tryRecoverSession r s)) \<Longrightarrow> snd (tryRecoverSession r s) = s"
  by (simp add: tryRecoverSession_def Let_def
      split: response.splits option.splits sum.splits if_splits)

lemma tryRecoverSession_failures:
  "fst (tryRecoverSession (Rejected e) s) = None"
  "fst (tryRecoverSession (NotOk code) s) = None"
  "fst (tryRecoverSession (BadBody e) s) = None"
  by (simp_all add: tryRecoverSession_def)


lemma ensureSession_recovered_falsy:
  assumes "\<not> truthyv (fst (tryRecoverSession r s))"
  shows "ensureSession_recovered c r s
     = ensureSession_create c
         (s\<lparr>sessionIdRef := None,
             localStorage := clearStoredSession (localStorage s),
             status := idle\<rparr>)"
proof -
  obtain v s1 where t: "tryRecoverSession r s = (v, s1)"
    by (cases "tryRecoverSession r s") auto
  with assms tryRecoverSession_falsy [OF assms] have "\<not> truthyv v" and "s1 = s" by simp_all
  then show ?thesis by (simp add: ensureSession_recovered_def t)
qed






lemma step_Settle_lookup:
  "pending s = [AwaitRecover c] \<Longrightarrow>
   step (Settle 0 (Lookup lk)) s = ensureSession_recovered c lk (s\<lparr>pending := []\<rparr>)"
  by (simp add: remove_nth_def)

lemma step_Settle_creation:
  "pending s = [AwaitCreate c] \<Longrightarrow>
   step (Settle 0 (Creation cr)) s = ensureSession_created c cr (s\<lparr>pending := []\<rparr>)"
  by (simp add: remove_nth_def)



section \<open>A failed recovery falls through to creation (C7)\<close>

text \<open>
  Claim C7. When the lookup of the stored session gives nothing (not found, a rejected
  fetch, an unreadable body, or anything else that makes \<^verbatim>\<open>tryRecoverSession\<close> return
  a falsy value), no error reaches the caller, whoever it is: the stored session id is
  cleared, in the ref and in \<^verbatim>\<open>localStorage\<close>, and the call goes on to the creation
  request; when that answers with a non-empty id, the id is stored and returned.
\<close>

theorem recovery_failure_falls_through:
  assumes "pending s = []" and "\<not> sessionCreatedRef s" and "\<not> sessionRecoveryAttempted s"
    and "sessionIdRef s = Some old" and "old \<noteq> []"
    and "\<not> truthyv (fst (tryRecoverSession lk s))"
    and "new \<noteq> []"
  shows "(let s1 = run [CallEnsureSession, Settle 0 (Lookup lk)] s;
              s2 = step (Settle 0 (Creation (Ok (Some new)))) s1
          in returned s1 = returned s
             \<and> messages s1 = messages s
             \<and> status s1 = idle
             \<and> sessionIdRef s1 = None
             \<and> localStorage s1 STORAGE_KEY_SESSION_ID = None
             \<and> network s1 = network s @ [GetSession (userIdRef s) old, PostSession (userIdRef s)]
             \<and> pending s1 = [AwaitCreate Direct]
             \<and> returned s2 = returned s @ [Inr (Some new)]
             \<and> messages s2 = messages s
             \<and> sessionIdRef s2 = Some new
             \<and> sessionCreatedRef s2
             \<and> localStorage s2 STORAGE_KEY_SESSION_ID = Some new)
       \<and> (\<forall>c s'. \<not> truthyv (fst (tryRecoverSession lk s')) \<and>
             ensureSession_recovered c lk s'
             = ensureSession_create c
                 (s'\<lparr>sessionIdRef := None,
                      localStorage := clearStoredSession (localStorage s'),
                      status := idle\<rparr>))
       \<and> (\<forall>code e. fst (tryRecoverSession (NotOk code) s) = None
             \<and> fst (tryRecoverSession (Rejected e) s) = None
             \<and> fst (tryRecoverSession (BadBody e) s) = None)"
proof (intro conjI)
  have falsy: "\<And>s'. \<not> truthyv (fst (tryRecoverSession lk s'))"
    using assms(6) tryRecoverSession_value [of lk s] by metis
  show "\<forall>c s'. \<not> truthyv (fst (tryRecoverSession lk s')) \<and>
          ensureSession_recovered c lk s'
          = ensureSession_create c
              (s'\<lparr>sessionIdRef := None,
                   localStorage := clearStoredSession (localStorage s'),
                   status := idle\<rparr>)"
    using falsy ensureSession_recovered_falsy by blast
  show "\<forall>code e. fst (tryRecoverSession (NotOk code) s) = None
          \<and> fst (tryRecoverSession (Rejected e) s) = None
          \<and> fst (tryRecoverSession (BadBody e) s) = None"
    by (simp add: tryRecoverSession_failures)
  define s0 where "s0 = step CallEnsureSession s"
  have s0: "pending s0 = [AwaitRecover Direct]"
    using assms(1-5) by (simp add: s0_def ensureSession_def)
  define s1 where "s1 = run [CallEnsureSession, Settle 0 (Lookup lk)] s"
  have "s1 = ensureSession_recovered Direct lk (s0\<lparr>pending := []\<rparr>)"
    by (simp only: s1_def run.simps s0_def [symmetric] step_Settle_lookup [OF s0])
  then have s1_eq: "s1 = ensureSession_create Direct
      (s0\<lparr>pending := [], sessionIdRef := None,
          localStorage := clearStoredSession (localStorage s0), status := idle\<rparr>)"
    by (simp add: ensureSession_recovered_falsy [OF falsy])
  have s1: "returned s1 = returned s" "messages s1 = messages s" "status s1 = idle"
    "sessionIdRef s1 = None" "localStorage s1 STORAGE_KEY_SESSION_ID = None"
    "network s1 = network s @ [GetSession (userIdRef s) old, PostSession (userIdRef s)]"
    "pending s1 = [AwaitCreate Direct]" "userIdRef s1 = userIdRef s"
    using assms(1-5)
    by (simp_all add: s1_eq s0_def ensureSession_def ensureSession_create_def
        clearStoredSession_def)
  define s2 where "s2 = step (Settle 0 (Creation (Ok (Some new)))) s1"
  have "s2 = ensureSession_created Direct (Ok (Some new)) (s1\<lparr>pending := []\<rparr>)"
    by (simp only: s2_def step_Settle_creation [OF s1(7)])
  then have s2: "returned s2 = returned s @ [Inr (Some new)]" "messages s2 = messages s"
    "sessionIdRef s2 = Some new" "sessionCreatedRef s2"
    "localStorage s2 STORAGE_KEY_SESSION_ID = Some new"
    using assms(7) s1
    by (simp_all add: ensureSession_created_def startListening_def storeSessionId_def Let_def)
  from s1 s2 show "let s1 = run [CallEnsureSession, Settle 0 (Lookup lk)] s;
              s2 = step (Settle 0 (Creation (Ok (Some new)))) s1
          in returned s1 = returned s
             \<and> messages s1 = messages s
             \<and> status s1 = idle
             \<and> sessionIdRef s1 = None
             \<and> localStorage s1 STORAGE_KEY_SESSION_ID = None
             \<and> network s1 = network s @ [GetSession (userIdRef s) old, PostSession (userIdRef s)]
             \<and> pending s1 = [AwaitCreate Direct]
             \<and> returned s2 = returned s @ [Inr (Some new)]
             \<and> messages s2 = messages s
             \<and> sessionIdRef s2 = Some new
             \<and> sessionCreatedRef s2
             \<and> localStorage s2 STORAGE_KEY_SESSION_ID = Some new"
    unfolding s1_def s2_def Let_def by simp
qed

theorem recovery_failure_falls_through_witness:
  "(let s1 = run [CallEnsureSession, Settle 0 (Lookup (NotOk 404))] returning_page;
        s2 = step (Settle 0 (Creation (Ok (Some ''sess-2'')))) s1
    in returned s1 = []
       \<and> messages s1 = [WELCOME_MESSAGE]
       \<and> sessionIdRef s1 = None
       \<and> localStorage s1 STORAGE_KEY_SESSION_ID = None
       \<and> network s1 = [GetSession ''user_ab12cd'' ''sess-1'', PostSession ''user_ab12cd'']
       \<and> returned s2 = [Inr (Some ''sess-2'')]
       \<and> sessionIdRef s2 = Some ''sess-2''
       \<and> localStorage s2 STORAGE_KEY_SESSION_ID = Some ''sess-2'')"
proof -
  note t = recovery_failure_falls_through
      [of returning_page "''sess-1''" "NotOk 404" "''sess-2''", THEN conjunct1]
  have "let s1 = run [CallEnsureSession, Settle 0 (Lookup (NotOk 404))] returning_page;
              s2 = step (Settle 0 (Creation (Ok (Some ''sess-2'')))) s1
          in returned s1 = returned returning_page
             \<and> messages s1 = messages returning_page
             \<and> status s1 = idle
             \<and> sessionIdRef s1 = None
             \<and> localStorage s1 STORAGE_KEY_SESSION_ID = None
             \<and> network s1 = network returning_page @
                 [GetSession (userIdRef returning_page) ''sess-1'',
                  PostSession (userIdRef returning_page)]
             \<and> pending s1 = [AwaitCreate Direct]
             \<and> returned s2 = returned returning_page @ [Inr (Some ''sess-2'')]
             \<and> messages s2 = messages returning_page
             \<and> sessionIdRef s2 = Some ''sess-2''
             \<and> sessionCreatedRef s2
             \<and> localStorage s2 STORAGE_KEY_SESSION_ID = Some ''sess-2''"
    by (rule t) (simp_all add: returning_page_fields tryRecoverSession_failures)
  then show ?thesis
    by (simp only: Let_def returning_page_fields append_Nil simp_thms)
qed

section \<open>Two turns from the first render to the end\<close>

text \<open>
  A first turn on a fresh page, answered with the pause sentinel, ends with the status
  \<^verbatim>\<open>idle\<close>; a first turn answered with a product and a text ends with the Message
  that carries both, and with the new session id in the store.
\<close>

lemma pause_turn_trace:
  "(let s' = run [SendMessage ''Hello'',
                  Settle 0 (Creation (Ok (Some ''sess-1''))),
                  Settle 0 (Connection (Ok ())),
                  Settle 0 (ReadChunk [Data (event_of_parts [text_part ''__AI_PAUSED__''])]),
                  Settle 0 ReadDone] fresh_page
    in status s' = idle
       \<and> aiPaused s' = True
       \<and> messages s' = [WELCOME_MESSAGE, plain_message ''user'' (Some (JStr ''Hello''))]
       \<and> pending s' = [])"
  by (simp add: sendMessage_def ensureSession_def ensureSession_create_def
      ensureSession_created_def startListening_def remove_nth_def fresh_page_fields Let_def
      trim_examples reduce_line_def parseEvent_text_example sendMessage_done_def
      final_text_def is_text_event_def AI_PAUSED_def sendMessage_finally_def)

lemma sofa_turn_trace:
  "(let s' = run [SendMessage ''Show me black sofas'',
                  Settle 0 (Creation (Ok (Some ''sess-1''))),
                  Settle 0 (Connection (Ok ())),
                  Settle 0 (ReadChunk sofa_stream),
                  Settle 0 ReadDone] fresh_page
    in status s' = idle
       \<and> map m_text (messages s')
           = [m_text WELCOME_MESSAGE, Some (JStr ''Show me black sofas''),
              Some (JStr ''Here are some options'')]
       \<and> m_products (last (messages s')) = Some [sofa_a]
       \<and> localStorage s' STORAGE_KEY_SESSION_ID = Some ''sess-1'')"
  by (simp add: sendMessage_def ensureSession_def ensureSession_create_def
      ensureSession_created_def startListening_def remove_nth_def fresh_page_fields Let_def
      trim_examples reduce_line_def parseEvent_text_example parseEvent_response_example
      sendMessage_done_def final_text_def is_text_event_def AI_PAUSED_def
      sendMessage_finally_def sofa_stream_def extractProducts_def pushed_def
      has_name_and_price_def sofa_a_def plain_message_def storeSessionId_def)

section \<open>Totality of the classification (C10)\<close>

lemma parse_parts_reaches_null:
  "reaches_null parts \<Longrightarrow>
   parse_parts event parts
     = Inl (TypeError ''Cannot read properties of null (reading functionCall)'')"
proof (induction parts)
  case Nil
  then show ?case by (simp add: reaches_null_def)
next
  case (Cons part rest)
  show ?case
  proof (cases "part = JNull")
    case True
    then show ?thesis by (simp add: classify_part_def)
  next
    case False
    show ?thesis
    proof (cases "decides part")
      case True
      with False Cons.prems show ?thesis by (simp add: reaches_null_def undecided_def)
    next
      case undec: False
      with False Cons.prems have "reaches_null rest"
        by (simp add: reaches_null_def undecided_def)
      with Cons.IH classify_part_undecided [OF False undec, of event] show ?thesis by simp
    qed
  qed
qed

lemma parse_parts_not_reaches_null:
  "\<not> reaches_null parts \<Longrightarrow> \<exists>p. parse_parts event parts = Inr p"
proof (induction parts)
  case Nil
  show ?case by simp
next
  case (Cons part rest)
  show ?case
  proof (cases "part = JNull")
    case True
    with Cons.prems show ?thesis by (simp add: reaches_null_def undecided_def)
  next
    case False
    show ?thesis
    proof (cases "decides part")
      case True
      from classify_part_decided_type [OF False True, of event] show ?thesis by auto
    next
      case undec: False
      with False Cons.prems have "\<not> reaches_null rest"
        by (simp add: reaches_null_def undecided_def)
      with Cons.IH classify_part_undecided [OF False undec, of event] show ?thesis by simp
    qed
  qed
qed

lemma iterate_Inl: "iterate v = Inl e \<Longrightarrow> \<exists>m. e = TypeError m"
  by (cases v) auto

lemma reduce_line_raise:
  "parseEvent event = Inl e \<Longrightarrow> reduce_line (Data event) st = st"
  by (cases st) (simp add: reduce_line_def)

lemma ptype_five: "ptype p \<in> {FUNCTION_CALL, FUNCTION_RESPONSE, TEXT, TEXT_PARTIAL, THINKING}"
  by (cases p) simp_all

lemma parseEvent_empty_parts:
  "optchain (optchain (Some event) ''content'') ''parts'' = None
   \<or> optchain (optchain (Some event) ''content'') ''parts'' = Some JNull
   \<or> optchain (optchain (Some event) ''content'') ''parts'' = Some (JArr [])
   \<or> optchain (optchain (Some event) ''content'') ''parts'' = Some (JStr []) \<Longrightarrow>
   parseEvent event = Inr (Thinking event)"
  by (auto simp add: parseEvent_def event_parts_def)

text \<open>
  Claim C10, as amended. \<^verbatim>\<open>parseEvent\<close> classifies an event exactly when its parts, if
  present and not \<^verbatim>\<open>null\<close>, are an array or a string whose elements, read in order up
  to the first one that carries a function call, a function response or non-empty text
  (or to the end when there is none), include no \<^verbatim>\<open>null\<close>. This includes the events
  with no content, with no parts or with empty parts, which are classified
  \<^verbatim>\<open>thinking\<close>. The result is exactly one of \<^verbatim>\<open>function_call\<close>,
  \<^verbatim>\<open>function_response\<close>, \<^verbatim>\<open>text\<close>, \<^verbatim>\<open>text_partial\<close>, \<^verbatim>\<open>thinking\<close>. On every
  other event, that is, when the parts are not iterable or when a \<^verbatim>\<open>null\<close> element is
  read before any part that carries one of the three, \<^verbatim>\<open>parseEvent\<close> raises a
  TypeError; the read loop catches it and skips the line, leaving its locals and the state
  as they are. A classified text is never empty or white space only; an event whose parts
  are not \<^verbatim>\<open>null\<close> and carry no function call, no function response and only empty or
  white-space text is classified \<^verbatim>\<open>thinking\<close> and leaves the streaming-text buffer as
  it is; and whatever the event, the streaming-text buffer after the line is the old one
  or a text that is not blank.
\<close>

theorem parseEvent_classifies_or_raises:
  "(iterate (event_parts event) = Inr parts \<and> \<not> reaches_null parts \<longrightarrow>
      (\<exists>p. parseEvent event = Inr p
           \<and> ptype p \<in> {FUNCTION_CALL, FUNCTION_RESPONSE, TEXT, TEXT_PARTIAL, THINKING}
           \<and> (\<forall>t. ptext p = Some t \<longrightarrow> t \<noteq> [] \<and> \<not> (\<forall>c\<in>set t. is_ws c))))
   \<and> (iterate (event_parts event) = Inr parts \<and> reaches_null parts \<longrightarrow>
        (\<exists>m. parseEvent event = Inl (TypeError m)))
   \<and> (iterate (event_parts event) = Inl e \<longrightarrow> (\<exists>m. parseEvent event = Inl (TypeError m)))
   \<and> (parseEvent event = Inl e \<longrightarrow>
        reduce_line (Data event) (evs, acc, s) = (evs, acc, s))
   \<and> (optchain (optchain (Some event) ''content'') ''parts'' = None
        \<or> optchain (optchain (Some event) ''content'') ''parts'' = Some JNull
        \<or> optchain (optchain (Some event) ''content'') ''parts'' = Some (JArr []) \<longrightarrow>
        parseEvent event = Inr (Thinking event))
   \<and> (iterate (event_parts event) = Inr parts
        \<and> (\<forall>part\<in>set parts. part \<noteq> JNull \<and> \<not> carries_call part \<and> \<not> carries_response part
              \<and> (\<forall>t. jsget part ''text'' = Some (JStr t) \<longrightarrow> (\<forall>c\<in>set t. is_ws c))) \<longrightarrow>
        parseEvent event = Inr (Thinking event)
        \<and> reduce_line (Data event) (evs, acc, s) = (evs @ [Thinking event], acc, s))
   \<and> (let s' = snd (snd (reduce_line (Data event) (evs, acc, s)))
      in streamingText s' = streamingText s
         \<or> (streamingText s' \<noteq> [] \<and> \<not> (\<forall>c\<in>set (streamingText s'). is_ws c)))"
proof (intro conjI impI)
  assume a: "iterate (event_parts event) = Inr parts \<and> \<not> reaches_null parts"
  then obtain p where "parse_parts event parts = Inr p"
    using parse_parts_not_reaches_null by blast
  with a have pe: "parseEvent event = Inr p" by (simp add: parseEvent_def)
  have "\<forall>t. ptext p = Some t \<longrightarrow> t \<noteq> [] \<and> \<not> (\<forall>c\<in>set t. is_ws c)"
    using parseEvent_text_nonblank [OF pe] trim_eq_Nil_iff by metis
  with pe ptype_five [of p]
  show "\<exists>p. parseEvent event = Inr p
      \<and> ptype p \<in> {FUNCTION_CALL, FUNCTION_RESPONSE, TEXT, TEXT_PARTIAL, THINKING}
      \<and> (\<forall>t. ptext p = Some t \<longrightarrow> t \<noteq> [] \<and> \<not> (\<forall>c\<in>set t. is_ws c))"
    by blast
next
  assume "iterate (event_parts event) = Inr parts \<and> reaches_null parts"
  then show "\<exists>m. parseEvent event = Inl (TypeError m)"
    by (simp add: parseEvent_def parse_parts_reaches_null)
next
  assume a: "iterate (event_parts event) = Inl e"
  with iterate_Inl obtain m where "e = TypeError m" by blast
  with a show "\<exists>m. parseEvent event = Inl (TypeError m)"
    by (simp add: parseEvent_def)
next
  assume "parseEvent event = Inl e"
  then show "reduce_line (Data event) (evs, acc, s) = (evs, acc, s)"
    by (rule reduce_line_raise)
next
  assume "optchain (optchain (Some event) ''content'') ''parts'' = None
        \<or> optchain (optchain (Some event) ''content'') ''parts'' = Some JNull
        \<or> optchain (optchain (Some event) ''content'') ''parts'' = Some (JArr [])"
  then show "parseEvent event = Inr (Thinking event)"
    by (intro parseEvent_empty_parts) blast
next
  assume a: "iterate (event_parts event) = Inr parts
        \<and> (\<forall>part\<in>set parts. part \<noteq> JNull \<and> \<not> carries_call part \<and> \<not> carries_response part
              \<and> (\<forall>t. jsget part ''text'' = Some (JStr t) \<longrightarrow> (\<forall>c\<in>set t. is_ws c)))"
  then have nn: "JNull \<notin> set parts" by blast
  from a have "\<forall>part\<in>set parts. \<not> decides part"
    using blank_part_undecided by blast
  from parse_parts_undecided [OF nn this, of event] a
  show pe: "parseEvent event = Inr (Thinking event)" by (simp add: parseEvent_def)
  then show "reduce_line (Data event) (evs, acc, s) = (evs @ [Thinking event], acc, s)"
    by (simp add: reduce_line_def)
next
  obtain evs' acc' s' where r: "reduce_line (Data event) (evs, acc, s) = (evs', acc', s')"
    using prod_cases3 by blast
  from reduce_line_streamingText [OF r] trim_eq_Nil_iff [of "streamingText s'"]
  show "let s' = snd (snd (reduce_line (Data event) (evs, acc, s)))
        in streamingText s' = streamingText s
           \<or> (streamingText s' \<noteq> [] \<and> \<not> (\<forall>c\<in>set (streamingText s'). is_ws c))"
    by (auto simp add: r)
qed

theorem parseEvent_classifies_or_raises_witness:
  "iterate (event_parts (event_of_parts [call_part ''search_products'', JNull]))
     = Inr [call_part ''search_products'', JNull]
   \<and> \<not> reaches_null [call_part ''search_products'', JNull]
   \<and> classify (event_of_parts [call_part ''search_products'', JNull]) = Inr FUNCTION_CALL
   \<and> reaches_null [JObj [], JNull]
   \<and> classify (event_of_parts [JObj [], JNull])
     = Inl (TypeError ''Cannot read properties of null (reading functionCall)'')
   \<and> reduce_line (Data (event_of_parts [JObj [], JNull])) ([], ''Here'', fresh_page)
     = ([], ''Here'', fresh_page)
   \<and> iterate (event_parts (JObj [(''content'', JObj [(''parts'', JNum 5)])]))
     = Inl (TypeError ''value is not iterable'')
   \<and> classify (JObj [(''content'', JObj [(''parts'', JNum 5)])])
     = Inl (TypeError ''value is not iterable'')
   \<and> parseEvent (event_of_parts [text_part ''  '', JObj []])
     = Inr (Thinking (event_of_parts [text_part ''  '', JObj []]))
   \<and> reduce_line (Data (event_of_parts [text_part ''  '', JObj []]))
       ([], ''Here'', fresh_page\<lparr>streamingText := ''Here''\<rparr>)
     = ([Thinking (event_of_parts [text_part ''  '', JObj []])], ''Here'',
        fresh_page\<lparr>streamingText := ''Here''\<rparr>)
   \<and> parseEvent (JObj [(''author'', JStr ''agent'')])
     = Inr (Thinking (JObj [(''author'', JStr ''agent'')]))"
  using parseEvent_classifies_or_raises
    [of "event_of_parts [call_part ''search_products'', JNull]"
        "[call_part ''search_products'', JNull]" "TypeError []" "[]" "''Here''" fresh_page]
    parseEvent_classifies_or_raises
    [of "event_of_parts [JObj [], JNull]" "[JObj [], JNull]"
        "TypeError ''Cannot read properties of null (reading functionCall)''"
        "[]" "''Here''" fresh_page]
    parseEvent_classifies_or_raises
    [of "JObj [(''content'', JObj [(''parts'', JNum 5)])]" "[]"
        "TypeError ''value is not iterable''" "[]" "''Here''" fresh_page]
    parseEvent_classifies_or_raises
    [of "event_of_parts [text_part ''  '', JObj []]" "[text_part ''  '', JObj []]"
        "TypeError []" "[]" "''Here''" "fresh_page\<lparr>streamingText := ''Here''\<rparr>"]
    parseEvent_classifies_or_raises
    [of "JObj [(''author'', JStr ''agent'')]" "[]" "TypeError []" "[]" "''Here''" fresh_page]
  by (simp add: event_parts_def example_defs carries_defs is_ws_def reaches_null_def
      undecided_def classify_def parseEvent_def classify_part_def)

text \<open>
  The claim as stated ("every event value") fails on an event with a \<^verbatim>\<open>null\<close> part
  after a blank text part: reading \<^verbatim>\<open>part.functionCall\<close> raises.
\<close>

theorem parseEvent_null_part_counterexample:
  "classify (event_of_parts [text_part '' '', JNull])
   = Inl (TypeError ''Cannot read properties of null (reading functionCall)'')"
  by (simp add: example_defs classify_def parseEvent_def event_parts_def classify_part_def
      trim_def is_ws_def)

section \<open>Products of the agent Message (C8)\<close>

text \<open>
  Claim C8, as amended. Product extraction over the events of a turn collects, from
  every event classified as a function response, the elements of the \<^verbatim>\<open>products\<close>
  array of its response and its \<^verbatim>\<open>product\<close> when that is truthy. Provided none of the
  collected values is \<^verbatim>\<open>null\<close>: it keeps exactly those whose \<^verbatim>\<open>name\<close> and
  \<^verbatim>\<open>price\<close> are both truthy (the filter \<^verbatim>\<open>p.name && p.price\<close>: an object whose
  price is 0, or whose name is the empty string, is dropped); and, when the final text is
  neither blank nor the pause sentinel, the Message appended carries the final text, this
  product list, the function-call events as tool calls, and all the events.
\<close>

theorem extractProducts_message:
  assumes "JNull \<notin> set (concat (map pushed allEvents))"
    and "final_text allEvents acc = Some finalText"
    and "finalText \<noteq> AI_PAUSED" and "trim finalText \<noteq> []"
  shows "extractProducts allEvents
           = Inr (filter has_name_and_price (concat (map pushed allEvents)))
       \<and> messages (sendMessage_done ap allEvents acc s)
           = messages s @
             [\<lparr>m_role = ''agent'', m_text = Some (JStr finalText), m_author = None,
               m_timestamp = None,
               m_products = Some (filter has_name_and_price (concat (map pushed allEvents))),
               m_toolCalls = Some (filter (\<lambda>e. ptype e = FUNCTION_CALL) allEvents),
               m_events = Some allEvents\<rparr>]
       \<and> (\<forall>e\<in>set allEvents.
             pushed e =
               (if ptype e = FUNCTION_RESPONSE
                then (case optchain (presponse e) ''products'' of
                        Some (JArr ps) \<Rightarrow> ps
                      | _ \<Rightarrow> [])
                     @ (case optchain (presponse e) ''product'' of
                          Some p \<Rightarrow> if truthy p then [p] else []
                        | None \<Rightarrow> [])
                else []))
       \<and> (\<forall>p. has_name_and_price p
              \<longleftrightarrow> truthyv (jsget p ''name'') \<and> truthyv (jsget p ''price''))
       \<and> \<not> has_name_and_price (JObj [(''name'', JStr name), (''price'', JNum 0)])
       \<and> \<not> has_name_and_price (JObj [(''name'', JStr []), (''price'', price)])"
proof -
  have prods: "extractProducts allEvents
      = Inr (filter has_name_and_price (concat (map pushed allEvents)))"
    unfolding extractProducts_def by (rule filter_products_no_null [OF assms(1)])
  show ?thesis
    by (simp add: prods sendMessage_done_message [OF assms(2,3,4) prods]
        pushed_def has_name_and_price_def)
qed

theorem extractProducts_message_witness:
  "extractProducts
     [FunctionResponse (Some (JStr ''search_products''))
        (Some (JObj [(''products'', JArr [sofa_a, JObj [(''name'', JStr ''Sofa B'')]]),
                     (''product'', JObj [(''name'', JStr ''Rug''), (''price'', JNum 0)])]))
        JNull,
      Text ''Here are some options'' JNull]
     = Inr [sofa_a]
   \<and> messages
       (sendMessage_done False
          [FunctionResponse (Some (JStr ''search_products''))
             (Some (JObj [(''products'', JArr [sofa_a, JObj [(''name'', JStr ''Sofa B'')]]),
                          (''product'', JObj [(''name'', JStr ''Rug''), (''price'', JNum 0)])]))
             JNull,
           Text ''Here are some options'' JNull]
          ''Here are some options'' fresh_page)
     = [WELCOME_MESSAGE,
        \<lparr>m_role = ''agent'', m_text = Some (JStr ''Here are some options''), m_author = None,
          m_timestamp = None, m_products = Some [sofa_a], m_toolCalls = Some [],
          m_events =
            Some [FunctionResponse (Some (JStr ''search_products''))
                    (Some (JObj [(''products'', JArr [sofa_a, JObj [(''name'', JStr ''Sofa B'')]]),
                                 (''product'',
                                  JObj [(''name'', JStr ''Rug''), (''price'', JNum 0)])]))
                    JNull,
                  Text ''Here are some options'' JNull]\<rparr>]"
  using extractProducts_message
    [of "[FunctionResponse (Some (JStr ''search_products''))
            (Some (JObj [(''products'', JArr [sofa_a, JObj [(''name'', JStr ''Sofa B'')]]),
                         (''product'', JObj [(''name'', JStr ''Rug''), (''price'', JNum 0)])]))
            JNull,
          Text ''Here are some options'' JNull]"
        "''Here are some options''" "''Here are some options''" False fresh_page]
  by (simp add: pushed_def has_name_and_price_def sofa_a_def final_text_def is_text_event_def
      AI_PAUSED_def trim_examples fresh_page_fields)

text \<open>
  The claim as stated fails in two ways. With a \<^verbatim>\<open>null\<close> among the products the
  filter raises when it reads \<^verbatim>\<open>p.name\<close>: the turn ends with an error Message, and the
  product beside the \<^verbatim>\<open>null\<close> is carried by no Message. And an object that has a name
  and the price 0 is not kept.
\<close>

theorem extractProducts_null_or_free_counterexample:
  "extractProducts
     [FunctionResponse (Some (JStr ''search_products''))
        (Some (JObj [(''products'', JArr [sofa_a, JNull])]))
        (event_of_parts
           [response_part ''search_products'' (JObj [(''products'', JArr [sofa_a, JNull])])])]
     = Inl (TypeError ''Cannot read properties of null (reading name)'')
   \<and> messages
       (sendMessage_stream False
          [Data (event_of_parts
                   [response_part ''search_products''
                      (JObj [(''products'', JArr [sofa_a, JNull])])]),
           Data (event_of_parts [text_part ''Here are some options''])]
          fresh_page)
     = [WELCOME_MESSAGE,
        plain_message ''agent''
          (Some (JStr (''Error: Cannot read properties of null (reading name)''
                       @ ''. Please check if the server is running.'')))]
   \<and> extractProducts
       [FunctionResponse (Some (JStr ''search_products''))
          (Some (JObj [(''products'',
                        JArr [JObj [(''name'', JStr ''Rug''), (''price'', JNum 0)]])]))
          JNull]
     = Inr []"
  by (simp add: extractProducts_def pushed_def has_name_and_price_def sofa_a_def
      sendMessage_stream_def reduce_line_def parseEvent_response_example
      parseEvent_text_example trim_examples sendMessage_done_def final_text_def
      is_text_event_def AI_PAUSED_def sendMessage_catch_def sendMessage_finally_def
      fresh_page_fields)

lemma sofa_scenario:
  "messages (sendMessage_stream False sofa_stream fresh_page)
     = [WELCOME_MESSAGE,
        \<lparr>m_role = ''agent'', m_text = Some (JStr ''Here are some options''), m_author = None,
          m_timestamp = None, m_products = Some [sofa_a], m_toolCalls = Some [],
          m_events = Some (classified sofa_stream)\<rparr>]"
  by (simp add: sofa_stream_def sendMessage_stream_def reduce_line_def
      parseEvent_response_example parseEvent_text_example trim_examples
      sendMessage_done_def final_text_def is_text_event_def AI_PAUSED_def
      extractProducts_def pushed_def has_name_and_price_def sofa_a_def
      sendMessage_finally_def fresh_page_fields)

section \<open>An established session: lemmas\<close>















section \<open>Idempotence of the negotiation (C5)\<close>







end
